theory Spec2Isabelle
  imports Complex_Main "HOL-Library.Word" "HOL-Library.Sublist" "HOL-Library.Log_Nat"
begin

section \<open>Errors and domain values\<close>

text \<open>
  Go \<^verbatim>\<open>error\<close> values that the service tells apart. Every other error is
  \<open>ErrorNew msg\<close>, the value of \<^verbatim>\<open>errors.New(msg)\<close>.
\<close>

datatype error =
    ErrUnprocessableEntity
  | ErrDocumentNotFound
  | BreakerOpenError
  | Canceled
  | DeadlineExceeded
  | ErrorNew string

text \<open>\<^verbatim>\<open>domain.Product\<close>, as the handlers build and return it.\<close>

record Product =
  ID :: string
  Name :: string

text \<open>
  The \<^verbatim>\<open>Repository\<close> interface of package product. \<^verbatim>\<open>CreateProduct\<close> is handed
  a pointer to the product; the store is taken to read the product and leave it as it is.
\<close>

record Repository =
  CreateProduct :: "Product \<Rightarrow> error option"
  GetProduct :: "string \<Rightarrow> error + Product"

section \<open>Request dispatcher: \<^verbatim>\<open>handle\<close>\<close>

text \<open>
  The part of \<^verbatim>\<open>fiber.Ctx\<close> that \<^verbatim>\<open>handle\<close> uses. Each parser takes the
  request value it is given by reference and returns its error together with the request
  value as it left it. \<open>statusCode\<close> is the status the response carries before
  \<^verbatim>\<open>handle\<close> touches it; \<^verbatim>\<open>ctx.JSON\<close> does not change it.
\<close>

record 'r Ctx =
  BodyParser :: "'r \<Rightarrow> error option \<times> 'r"
  ParamsParser :: "'r \<Rightarrow> error option \<times> 'r"
  QueryParser :: "'r \<Rightarrow> error option \<times> 'r"
  ReqHeaderParser :: "'r \<Rightarrow> error option \<times> 'r"
  statusCode :: nat

text \<open>
  The response written to the client: \<open>ErrorJSON err\<close> is the body
  \<^verbatim>\<open>{"error": err.Error()}\<close>, \<open>JSON res\<close> the serialised handler response.
\<close>

datatype 'res body = ErrorJSON error | JSON 'res

record 'res Response =
  Status :: nat
  Body :: "'res body"

definition StatusOK :: nat where "StatusOK = 200"
definition StatusCreated :: nat where "StatusCreated = 201"
definition StatusBadRequest :: nat where "StatusBadRequest = 400"
definition StatusNotFound :: nat where "StatusNotFound = 404"
definition StatusInternalServerError :: nat where "StatusInternalServerError = 500"
definition StatusBadGateway :: nat where "StatusBadGateway = 502"
definition StatusServiceUnavailable :: nat where "StatusServiceUnavailable = 503"
definition StatusGatewayTimeout :: nat where "StatusGatewayTimeout = 504"

text \<open>The calls \<^verbatim>\<open>handle\<close> makes, in the order it makes them.\<close>

datatype call =
  CallBodyParser | CallParamsParser | CallQueryParser | CallReqHeaderParser | CallHandle

text \<open>
  \<^verbatim>\<open>handle[R, Res](handler)\<close> applied to one request. \<open>req0\<close> is the zero value of
  \<^verbatim>\<open>var req R\<close>. The result is the response and the log of the calls made.
\<close>

definition handle ::
  "('r \<Rightarrow> error + 'res) \<Rightarrow> 'r Ctx \<Rightarrow> 'r \<Rightarrow> 'res Response \<times> call list" where
  "handle handler ctx req0 =
    (let (err1, req1) = BodyParser ctx req0 in
     if err1 \<noteq> None \<and> err1 \<noteq> Some ErrUnprocessableEntity
     then (\<lparr>Status = StatusBadRequest, Body = ErrorJSON (the err1)\<rparr>, [CallBodyParser])
     else
      (let (err2, req2) = ParamsParser ctx req1 in
       if err2 \<noteq> None
       then (\<lparr>Status = StatusBadRequest, Body = ErrorJSON (the err2)\<rparr>,
             [CallBodyParser, CallParamsParser])
       else
        (let (err3, req3) = QueryParser ctx req2 in
         if err3 \<noteq> None
         then (\<lparr>Status = StatusBadRequest, Body = ErrorJSON (the err3)\<rparr>,
               [CallBodyParser, CallParamsParser, CallQueryParser])
         else
          (let (err4, req4) = ReqHeaderParser ctx req3 in
           if err4 \<noteq> None
           then (\<lparr>Status = StatusBadRequest, Body = ErrorJSON (the err4)\<rparr>,
                 [CallBodyParser, CallParamsParser, CallQueryParser, CallReqHeaderParser])
           else
            (case handler req4 of
               Inl err \<Rightarrow>
                 (\<lparr>Status = StatusInternalServerError, Body = ErrorJSON err\<rparr>,
                  [CallBodyParser, CallParamsParser, CallQueryParser, CallReqHeaderParser,
                   CallHandle])
             | Inr res \<Rightarrow>
                 (\<lparr>Status = statusCode ctx, Body = JSON res\<rparr>,
                  [CallBodyParser, CallParamsParser, CallQueryParser, CallReqHeaderParser,
                   CallHandle]))))))"

definition binder_order :: "call list" where
  "binder_order =
     [CallBodyParser, CallParamsParser, CallQueryParser, CallReqHeaderParser, CallHandle]"

section \<open>Product handlers\<close>

subsection \<open>\<^verbatim>\<open>GetProductHandler\<close>\<close>

record GetProductRequest =
  req_ID :: string

record GetProductResponse =
  res_Product :: Product

text \<open>
  An \<^verbatim>\<open>http.Response\<close> body: the bytes a reader delivers, and the error that ends
  the reading (\<open>None\<close> for a clean end of stream). \<^verbatim>\<open>io.ReadAll\<close> returns both.
\<close>

datatype reader = Reader "8 word list" "error option"

fun ReadAll :: "reader \<Rightarrow> 8 word list \<times> error option" where
  "ReadAll (Reader bytes err) = (bytes, err)"

record http_Response =
  StatusCode :: nat
  resp_Body :: reader

record GetProductHandler =
  repository :: Repository
  httpServer :: string

text \<open>
  What the calls into net/http, retryablehttp and the breaker return during one run of
  \<^verbatim>\<open>Handle\<close>: \<open>NewRequestWithContext\<close> is given the URL, \<open>breaker_Execute\<close>
  is the result of \<^verbatim>\<open>h.breaker.Execute\<close> on the thunk that performs the outbound call.
\<close>

record outbound =
  NewRequestWithContext :: "string \<Rightarrow> error option"
  FromRequest :: "error option"
  breaker_Execute :: "error + http_Response"

datatype event = EvExecute | EvReadAll | EvGetProduct string | EvCreateProduct Product

definition GetProductHandler_Handle ::
  "GetProductHandler \<Rightarrow> outbound \<Rightarrow> GetProductRequest
     \<Rightarrow> (error + GetProductResponse) \<times> event list" where
  "GetProductHandler_Handle h out req =
    (case NewRequestWithContext out (httpServer h @ ''/random-error'') of
       Some err \<Rightarrow> (Inl err, [])
     | None \<Rightarrow>
    (case FromRequest out of
       Some err \<Rightarrow> (Inl err, [])
     | None \<Rightarrow>
    (case breaker_Execute out of
       Inl err \<Rightarrow> (Inl err, [EvExecute])
     | Inr httpResp \<Rightarrow>
    (case ReadAll (resp_Body httpResp) of
       (_, Some err) \<Rightarrow> (Inl err, [EvExecute, EvReadAll])
     | (_, None) \<Rightarrow>
    (case GetProduct (repository h) (req_ID req) of
       Inl err \<Rightarrow> (Inl err, [EvExecute, EvReadAll, EvGetProduct (req_ID req)])
     | Inr product \<Rightarrow>
         (Inr \<lparr>res_Product = product\<rparr>,
          [EvExecute, EvReadAll, EvGetProduct (req_ID req)]))))))"

subsection \<open>\<^verbatim>\<open>CreateProductHandler\<close>\<close>

record CreateProductRequest =
  req_Name :: string

record CreateProductResponse =
  res_ID :: string

text \<open>\<open>uuid\<close> is the string that \<^verbatim>\<open>uuid.New().String()\<close> returns in this run.\<close>

definition CreateProductHandler_Handle ::
  "Repository \<Rightarrow> string \<Rightarrow> CreateProductRequest
     \<Rightarrow> (error + CreateProductResponse) \<times> event list" where
  "CreateProductHandler_Handle repo uuid req =
    (let productID = uuid;
         product = \<lparr>ID = productID, Name = req_Name req\<rparr>
     in case CreateProduct repo product of
          Some err \<Rightarrow> (Inl err, [EvCreateProduct product])
        | None \<Rightarrow> (Inr \<lparr>res_ID = ID product\<rparr>, [EvCreateProduct product]))"

subsection \<open>\<^verbatim>\<open>CouchBaseRepository.GetProduct\<close>\<close>

text \<open>
  \<open>get\<close> is \<^verbatim>\<open>r.bucket.DefaultCollection().Get\<close>, \<open>ident\<close> the
  parameter \<^verbatim>\<open>id\<close>; \<open>decode\<close> is the rest of the
  function after the error check, which turns the document into a product.
\<close>

definition CouchBaseRepository_GetProduct ::
  "(string \<Rightarrow> error + 'd) \<Rightarrow> ('d \<Rightarrow> error + Product) \<Rightarrow> string \<Rightarrow> error + Product" where
  "CouchBaseRepository_GetProduct get decode ident =
    (case get ident of
       Inl err \<Rightarrow>
         if err = ErrDocumentNotFound then Inl (ErrorNew ''product not found'')
         else Inl err
     | Inr data \<Rightarrow> decode data)"

subsection \<open>The routes registered in \<^verbatim>\<open>main\<close>\<close>

text \<open>
  \<^verbatim>\<open>app.Get("/products/:id", handle[...](getProductHandler))\<close> and
  \<^verbatim>\<open>app.Post("/products", handle[...](createProductHandler))\<close>. The zero value of
  a request struct has empty strings.
\<close>

definition GET_products ::
  "GetProductHandler \<Rightarrow> outbound \<Rightarrow> GetProductRequest Ctx
     \<Rightarrow> GetProductResponse Response \<times> call list" where
  "GET_products h out ctx =
     handle (\<lambda>req. fst (GetProductHandler_Handle h out req)) ctx \<lparr>req_ID = []\<rparr>"

definition POST_products ::
  "Repository \<Rightarrow> string \<Rightarrow> CreateProductRequest Ctx
     \<Rightarrow> CreateProductResponse Response \<times> call list" where
  "POST_products repo uuid ctx =
     handle (\<lambda>req. fst (CreateProductHandler_Handle repo uuid req)) ctx \<lparr>req_Name = []\<rparr>"

text \<open>
  Requests to \<^verbatim>\<open>POST /products\<close> served one after the other. \<^verbatim>\<open>uuid.New()\<close> is a
  library function: the values it returns over the life of the process are the sequence
  \<open>uuid_New 0\<close>, \<open>uuid_New 1\<close>, ..., and \<open>n\<close> counts the calls made so far.
  \<^verbatim>\<open>Handle\<close> calls it once, first thing, so a request is served with \<open>uuid_New n\<close> and
  the count advances exactly when the handler was called.
\<close>

fun POST_products_all ::
  "Repository \<Rightarrow> (nat \<Rightarrow> string) \<Rightarrow> nat \<Rightarrow> CreateProductRequest Ctx list
     \<Rightarrow> (CreateProductResponse Response \<times> call list) list" where
  "POST_products_all repo uuid_New n [] = []"
| "POST_products_all repo uuid_New n (ctx # rest) =
     (let r = POST_products repo (uuid_New n) ctx
      in r # POST_products_all repo uuid_New
               (if CallHandle \<in> set (snd r) then Suc n else n) rest)"

text \<open>The ids that a list of responses hands out, in order.\<close>

fun issued_ids :: "(CreateProductResponse Response \<times> call list) list \<Rightarrow> string list" where
  "issued_ids [] = []"
| "issued_ids ((resp, calls) # rest) =
     (case Body resp of
        JSON res \<Rightarrow> res_ID res # issued_ids rest
      | ErrorJSON err \<Rightarrow> issued_ids rest)"

section \<open>Circuit breaker\<close>

subsection \<open>float64 values of the trip predicate\<close>

text \<open>
  The float64 values that arise from unsigned counters and their quotient: a non-negative
  finite value, positive infinity, or NaN.
\<close>

datatype float64 = NaN | Inf | Finite rat

definition round_half_even :: "rat \<Rightarrow> int" where
  "round_half_even x =
    (let f = \<lfloor>x\<rfloor>; d = x - of_int f
     in if d < 1 / 2 then f else if 1 / 2 < d then f + 1 else if even f then f else f + 1)"

text \<open>\<open>ilog2 q\<close> is the exponent \<open>e\<close> with \<open>2 powi e \<le> q < 2 powi (e + 1)\<close>, for \<open>q > 0\<close>.\<close>

definition ilog2 :: "rat \<Rightarrow> int" where
  "ilog2 q =
    (let (n, d) = quotient_of q;
         e0 = int (floorlog 2 (nat n)) - int (floorlog 2 (nat d))
     in if 2 powi e0 \<le> q then e0 else e0 - 1)"

text \<open>
  Rounding of a non-negative rational to binary64, to nearest with ties to even: 53
  significant bits, least exponent \<open>-1022\<close> (below it the spacing stays \<open>2 powi (-1074)\<close>),
  and infinity from \<open>2 powi 1024\<close> on.
\<close>

definition float64_round :: "rat \<Rightarrow> float64" where
  "float64_round q =
    (if q = 0 then Finite 0
     else let e = max (ilog2 q) (- 1022);
              r = of_int (round_half_even (q * 2 powi (52 - e))) * 2 powi (e - 52)
          in if 2 powi 1024 \<le> r then Inf else Finite r)"

text \<open>\<^verbatim>\<open>float64(n)\<close> for a uint32 \<open>n\<close>: every uint32 is a float64, so nothing is rounded.\<close>

definition float64_of_uint32 :: "32 word \<Rightarrow> float64" where
  "float64_of_uint32 n = Finite (of_nat (unat n))"

text \<open>Division and \<^verbatim>\<open>>=\<close> on these values. Division by zero gives infinity or NaN.\<close>

fun float64_div :: "float64 \<Rightarrow> float64 \<Rightarrow> float64" where
  "float64_div NaN _ = NaN"
| "float64_div _ NaN = NaN"
| "float64_div Inf Inf = NaN"
| "float64_div Inf (Finite y) = Inf"
| "float64_div (Finite x) Inf = Finite 0"
| "float64_div (Finite x) (Finite y) =
     (if y = 0 then (if x = 0 then NaN else Inf) else float64_round (x / y))"

fun float64_ge :: "float64 \<Rightarrow> float64 \<Rightarrow> bool" where
  "float64_ge NaN _ = False"
| "float64_ge _ NaN = False"
| "float64_ge Inf _ = True"
| "float64_ge (Finite x) Inf = False"
| "float64_ge (Finite x) (Finite y) = (y \<le> x)"

subsection \<open>Settings of \<^verbatim>\<open>NewGetProductHandler\<close>\<close>

text \<open>
  Modelled from the spec: \<^verbatim>\<open>gobreaker.Counts\<close>, a library type whose declaration
  is not among the sources. Section 3 lists the counters of the rolling window; the
  closure below reads \<open>Requests\<close> and \<open>TotalFailures\<close> and converts them with
  \<^verbatim>\<open>float64(...)\<close>. The counters are unsigned 32-bit integers, as in the library.
\<close>

record Counts =
  Requests :: "32 word"
  TotalFailures :: "32 word"
  ConsecutiveSuccesses :: "32 word"
  ConsecutiveFailures :: "32 word"

text \<open>
  The \<^verbatim>\<open>ReadyToTrip\<close> closure of the settings. The division is evaluated first, as in
  the source; \<open>float64_round (6 / 10)\<close> is the constant \<^verbatim>\<open>0.6\<close> as a float64.
\<close>

definition ReadyToTrip :: "Counts \<Rightarrow> bool" where
  "ReadyToTrip counts =
    (let failureRation =
           float64_div (float64_of_uint32 (TotalFailures counts))
                       (float64_of_uint32 (Requests counts))
     in 3 \<le> Requests counts \<and> float64_ge failureRation (float64_round (6 / 10)))"

text \<open>\<^verbatim>\<open>time.Duration\<close> counts nanoseconds.\<close>

definition Second :: nat where "Second = 1000000000"

text \<open>\<^verbatim>\<open>MaxRequests\<close>, \<^verbatim>\<open>Interval\<close> and \<^verbatim>\<open>Timeout\<close> of the settings.\<close>

definition MaxRequests :: "32 word" where "MaxRequests = 3"
definition Interval :: nat where "Interval = 5 * Second"
definition Timeout :: nat where "Timeout = 10 * Second"

subsection \<open>State machine of the breaker\<close>

text \<open>
  Modelled from the spec: the states of \<^verbatim>\<open>gobreaker.CircuitBreaker\<close>, a library type
  whose code is not among the sources. Section 4.2 names the states \<open>Closed\<close>, \<open>Open\<close>
  and \<open>HalfOpen\<close>.
\<close>

datatype State = Closed | Open | HalfOpen

text \<open>
  Modelled from the spec: the breaker's mutable state, missing with the library. It holds
  the state, the rolling counts, \<open>openedAt\<close> (section 4.2) and the start of the current
  counting window (section 3: counts are reset when the window expires).
\<close>

record CircuitBreaker =
  state :: State
  counts :: Counts
  openedAt :: nat
  windowStart :: nat

text \<open>Modelled from the spec: counts reset to zero (sections 3 and 4.2).\<close>

definition clear :: Counts where
  "clear = \<lparr>Requests = 0, TotalFailures = 0, ConsecutiveSuccesses = 0, ConsecutiveFailures = 0\<rparr>"

text \<open>
  Modelled from the spec: the breaker as \<^verbatim>\<open>gobreaker.NewCircuitBreaker\<close> returns it
  at time \<open>now\<close>; \<open>Closed\<close> is the initial state.
\<close>

definition NewCircuitBreaker :: "nat \<Rightarrow> CircuitBreaker" where
  "NewCircuitBreaker now = \<lparr>state = Closed, counts = clear, openedAt = 0, windowStart = now\<rparr>"

text \<open>
  Modelled from the spec: the count update of section 3 when a call is let through,
  missing with the library.
\<close>

definition onRequest :: "Counts \<Rightarrow> Counts" where
  "onRequest c = c\<lparr>Requests := Requests c + 1\<rparr>"

text \<open>
  Modelled from the spec: the count update for a successful result, missing with the
  library; it ends a run of consecutive failures.
\<close>

definition onSuccess :: "Counts \<Rightarrow> Counts" where
  "onSuccess c =
     c\<lparr>ConsecutiveSuccesses := ConsecutiveSuccesses c + 1, ConsecutiveFailures := 0\<rparr>"

text \<open>
  Modelled from the spec: the count update for a failed result, missing with the library;
  it ends a run of consecutive successes.
\<close>

definition onFailure :: "Counts \<Rightarrow> Counts" where
  "onFailure c =
     c\<lparr>TotalFailures := TotalFailures c + 1,
       ConsecutiveFailures := ConsecutiveFailures c + 1, ConsecutiveSuccesses := 0\<rparr>"

text \<open>
  Modelled from the spec: the time-driven transitions, missing with the library. In
  \<open>Closed\<close> the counts are reset when the window of \<open>Interval\<close> has expired; in \<open>Open\<close>
  the breaker becomes \<open>HalfOpen\<close> once \<open>Timeout\<close> has elapsed since \<open>openedAt\<close>.
\<close>

definition currentState :: "CircuitBreaker \<Rightarrow> nat \<Rightarrow> CircuitBreaker" where
  "currentState cb now =
    (case state cb of
       Closed \<Rightarrow>
         if windowStart cb + Interval \<le> now then cb\<lparr>counts := clear, windowStart := now\<rparr>
         else cb
     | Open \<Rightarrow>
         if openedAt cb + Timeout \<le> now then cb\<lparr>state := HalfOpen, counts := clear\<rparr>
         else cb
     | HalfOpen \<Rightarrow> cb)"

text \<open>
  Modelled from the spec: the admission check in front of a call, missing with the library. \<open>Closed\<close>
  lets every call pass, \<open>Open\<close> fails it with \<open>BreakerOpenError\<close>, \<open>HalfOpen\<close> lets up to
  \<open>MaxRequests\<close> calls through. The spec names no other breaker error, so a probe beyond
  the limit fails with \<open>BreakerOpenError\<close> too.
\<close>

definition admit :: "CircuitBreaker \<Rightarrow> nat \<Rightarrow> error option \<times> CircuitBreaker" where
  "admit cb now =
    (let cb1 = currentState cb now
     in case state cb1 of
          Closed \<Rightarrow> (None, cb1\<lparr>counts := onRequest (counts cb1)\<rparr>)
        | Open \<Rightarrow> (Some BreakerOpenError, cb1)
        | HalfOpen \<Rightarrow>
            if MaxRequests \<le> Requests (counts cb1) then (Some BreakerOpenError, cb1)
            else (None, cb1\<lparr>counts := onRequest (counts cb1)\<rparr>))"

text \<open>
  Modelled from the spec: what the breaker does with the result of a call it let through,
  missing with the library. In \<open>Closed\<close> the counts are updated and the breaker opens when
  \<open>ReadyToTrip\<close> holds of them; in \<open>HalfOpen\<close> a failure reopens it and resets \<open>openedAt\<close>,
  and it closes with counts reset once \<open>MaxRequests\<close> probes have succeeded.
\<close>

definition record_result :: "CircuitBreaker \<Rightarrow> nat \<Rightarrow> bool \<Rightarrow> CircuitBreaker" where
  "record_result cb now success =
    (case state cb of
       Closed \<Rightarrow>
         (let c = (if success then onSuccess (counts cb) else onFailure (counts cb))
          in if ReadyToTrip c then cb\<lparr>state := Open, counts := clear, openedAt := now\<rparr>
             else cb\<lparr>counts := c\<rparr>)
     | HalfOpen \<Rightarrow>
         if success
         then (let c = onSuccess (counts cb)
               in if MaxRequests \<le> ConsecutiveSuccesses c
                  then cb\<lparr>state := Closed, counts := clear, windowStart := now\<rparr>
                  else cb\<lparr>counts := c\<rparr>)
         else cb\<lparr>state := Open, counts := clear, openedAt := now\<rparr>
     | Open \<Rightarrow> cb)"

text \<open>
  Modelled from the spec: \<^verbatim>\<open>breaker.Execute(thunk)\<close> at time \<open>now\<close>, missing with the
  library. \<open>req\<close> is what the thunk returns if it is called. The result carries a flag that
  tells whether the thunk was called.
\<close>

definition CircuitBreaker_Execute ::
  "CircuitBreaker \<Rightarrow> nat \<Rightarrow> error + 'a \<Rightarrow> ((error + 'a) \<times> bool) \<times> CircuitBreaker" where
  "CircuitBreaker_Execute cb now req =
    (case admit cb now of
       (Some err, cb1) \<Rightarrow> ((Inl err, False), cb1)
     | (None, cb1) \<Rightarrow> ((req, True), record_result cb1 now (\<not> isl req)))"

text \<open>
  Modelled from the spec: consecutive calls to a dependency through the breaker
  (section 8), each with its time and the result of its thunk, run one after the other
  with the spec-modelled \<open>CircuitBreaker_Execute\<close>.
\<close>

fun Execute_all ::
  "CircuitBreaker \<Rightarrow> (nat \<times> (error + 'a)) list
     \<Rightarrow> ((error + 'a) \<times> bool) list \<times> CircuitBreaker" where
  "Execute_all cb [] = ([], cb)"
| "Execute_all cb ((now, req) # rest) =
     (let (out, cb1) = CircuitBreaker_Execute cb now req;
          (outs, cb2) = Execute_all cb1 rest
      in (out # outs, cb2))"

text \<open>
  Modelled from the spec: calls that arrive at the spec-modelled check \<open>admit\<close> before
  any of them has returned (section 5: the breaker is shared by concurrent requests).
\<close>

fun admit_all :: "CircuitBreaker \<Rightarrow> nat list \<Rightarrow> error option list \<times> CircuitBreaker" where
  "admit_all cb [] = ([], cb)"
| "admit_all cb (now # rest) =
     (let (err, cb1) = admit cb now;
          (errs, cb2) = admit_all cb1 rest
      in (err # errs, cb2))"

text \<open>
  Modelled from the spec: the number of failed calls of a sequence, the numerator of the
  failure ratio of sections 4.2 and 8.
\<close>

definition failures :: "(nat \<times> (error + 'a)) list \<Rightarrow> nat" where
  "failures calls = length (filter (\<lambda>(now, req). isl req) calls)"

text \<open>
  Modelled from the spec: the rolling counts after the calls of a sequence were let
  through and returned, by the spec-modelled count updates.
\<close>

fun tally :: "Counts \<Rightarrow> (nat \<times> (error + 'a)) list \<Rightarrow> Counts" where
  "tally c [] = c"
| "tally c ((now, req) # rest) =
     tally (if isl req then onFailure (onRequest c) else onSuccess (onRequest c)) rest"

section \<open>Retry policy\<close>

text \<open>\<^verbatim>\<open>retryClient.RetryMax = 0\<close> in \<^verbatim>\<open>main\<close>.\<close>

definition RetryMax :: nat where "RetryMax = 0"

text \<open>
  The \<^verbatim>\<open>CheckRetry\<close> closure of \<^verbatim>\<open>main\<close>. \<open>ctx_Err\<close> is \<^verbatim>\<open>ctx.Err()\<close>,
  \<open>outcome\<close> the response or error of the attempt, and \<open>DefaultRetryPolicy\<close> the library
  policy the closure falls back to.
\<close>

definition CheckRetry ::
  "(error + 'a \<Rightarrow> bool \<times> error option) \<Rightarrow> error option \<Rightarrow> error + 'a
     \<Rightarrow> bool \<times> error option" where
  "CheckRetry DefaultRetryPolicy ctx_Err outcome =
    (case ctx_Err of
       Some err \<Rightarrow> (False, Some err)
     | None \<Rightarrow> DefaultRetryPolicy outcome)"

text \<open>
  Modelled from the spec: the retry loop of \<^verbatim>\<open>retryablehttp.Client.Do\<close>, a library
  function whose code is not among the sources (section 4.3). \<open>attempt i\<close> is the outcome
  of the attempt number \<open>i\<close> (from 0) and \<open>ctx_Err i\<close> the value of \<^verbatim>\<open>ctx.Err()\<close> after
  it; \<open>n\<close> retries remain. With no retry left the outcome of the attempt is final. Before
  a retry the policy is asked: cancellation ends the loop with the cancellation error, an
  outcome that is not eligible ends it with that outcome. The result is the terminal
  outcome and the number of attempts made.
\<close>

fun Do ::
  "(error + 'a \<Rightarrow> bool \<times> error option) \<Rightarrow> (nat \<Rightarrow> error option) \<Rightarrow> (nat \<Rightarrow> error + 'a)
     \<Rightarrow> nat \<Rightarrow> nat \<Rightarrow> (error + 'a) \<times> nat" where
  "Do policy ctx_Err attempt 0 i = (attempt i, Suc i)"
| "Do policy ctx_Err attempt (Suc n) i =
    (case CheckRetry policy (ctx_Err i) (attempt i) of
       (False, Some err) \<Rightarrow> (Inl err, Suc i)
     | (False, None) \<Rightarrow> (attempt i, Suc i)
     | (True, _) \<Rightarrow> Do policy ctx_Err attempt n (Suc i))"

text \<open>Modelled from the spec: \<^verbatim>\<open>h.httpClient.Do\<close> with the configured \<open>RetryMax\<close>.\<close>

definition httpClient_Do ::
  "(error + 'a \<Rightarrow> bool \<times> error option) \<Rightarrow> (nat \<Rightarrow> error option) \<Rightarrow> (nat \<Rightarrow> error + 'a)
     \<Rightarrow> (error + 'a) \<times> nat" where
  "httpClient_Do policy ctx_Err attempt = Do policy ctx_Err attempt RetryMax 0"

section \<open>Example inputs\<close>

text \<open>A store without documents: every lookup reports \<open>ErrDocumentNotFound\<close>.\<close>

definition empty_store :: Repository where
  "empty_store =
    \<lparr>CreateProduct = (\<lambda>product. None),
     GetProduct =
       CouchBaseRepository_GetProduct (\<lambda>ident. Inl ErrDocumentNotFound)
         (\<lambda>data :: unit. Inr \<lparr>ID = [], Name = []\<rparr>)\<rparr>"

text \<open>A store that holds the product \<open>Widget\<close> under every key.\<close>

definition widget_store :: Repository where
  "widget_store =
    \<lparr>CreateProduct = (\<lambda>product. None),
     GetProduct = (\<lambda>ident. Inr \<lparr>ID = ident, Name = ''Widget''\<rparr>)\<rparr>"

definition empty_handler :: GetProductHandler where
  "empty_handler = \<lparr>repository = empty_store, httpServer = ''http://localhost:8080''\<rparr>"

definition widget_handler :: GetProductHandler where
  "widget_handler = \<lparr>repository = widget_store, httpServer = ''http://localhost:8080''\<rparr>"

text \<open>The outbound call answers 200 with an empty body that reads cleanly.\<close>

definition outbound_ok :: outbound where
  "outbound_ok =
    \<lparr>NewRequestWithContext = (\<lambda>url. None), FromRequest = None,
     breaker_Execute = Inr \<lparr>StatusCode = 200, resp_Body = Reader [] None\<rparr>\<rparr>"

text \<open>The same with a body of three bytes.\<close>

definition outbound_ok_body :: outbound where
  "outbound_ok_body =
    \<lparr>NewRequestWithContext = (\<lambda>url. None), FromRequest = None,
     breaker_Execute = Inr \<lparr>StatusCode = 200, resp_Body = Reader [1, 2, 3] None\<rparr>\<rparr>"

text \<open>The breaker rejects the outbound call.\<close>

definition outbound_open :: outbound where
  "outbound_open =
    \<lparr>NewRequestWithContext = (\<lambda>url. None), FromRequest = None,
     breaker_Execute = Inl BreakerOpenError\<rparr>"

text \<open>
  \<^verbatim>\<open>GET /products/does-not-exist\<close> without a body: the body parser reports
  \<open>ErrUnprocessableEntity\<close>, the path parameter fills \<open>req_ID\<close>, query and headers bind
  nothing.
\<close>

definition get_ctx :: "GetProductRequest Ctx" where
  "get_ctx =
    \<lparr>BodyParser = (\<lambda>req. (Some ErrUnprocessableEntity, req)),
     ParamsParser = (\<lambda>req. (None, req\<lparr>req_ID := ''does-not-exist''\<rparr>)),
     QueryParser = (\<lambda>req. (None, req)),
     ReqHeaderParser = (\<lambda>req. (None, req)),
     statusCode = StatusOK\<rparr>"

text \<open>The same request with a path parameter, a query or a header that does not parse.\<close>

definition get_ctx_bad_params :: "GetProductRequest Ctx" where
  "get_ctx_bad_params =
     get_ctx\<lparr>ParamsParser := (\<lambda>req. (Some (ErrorNew ''bad path parameter''), req))\<rparr>"

definition get_ctx_bad_query :: "GetProductRequest Ctx" where
  "get_ctx_bad_query =
     get_ctx\<lparr>QueryParser := (\<lambda>req. (Some (ErrorNew ''bad query''), req))\<rparr>"

definition get_ctx_bad_header :: "GetProductRequest Ctx" where
  "get_ctx_bad_header =
     get_ctx\<lparr>ReqHeaderParser := (\<lambda>req. (Some (ErrorNew ''bad header''), req))\<rparr>"

text \<open>\<^verbatim>\<open>POST /products\<close> with the body \<^verbatim>\<open>{"name":"Widget"}\<close>.\<close>

definition post_ctx :: "CreateProductRequest Ctx" where
  "post_ctx =
    \<lparr>BodyParser = (\<lambda>req. (None, req\<lparr>req_Name := ''Widget''\<rparr>)),
     ParamsParser = (\<lambda>req. (None, req)),
     QueryParser = (\<lambda>req. (None, req)),
     ReqHeaderParser = (\<lambda>req. (None, req)),
     statusCode = StatusOK\<rparr>"

text \<open>\<^verbatim>\<open>POST /products\<close> with a body that is not JSON.\<close>

definition post_ctx_bad_body :: "CreateProductRequest Ctx" where
  "post_ctx_bad_body =
     post_ctx\<lparr>BodyParser := (\<lambda>req. (Some (ErrorNew ''invalid character''), req))\<rparr>"

definition some_uuid :: string where
  "some_uuid = ''123e4567-e89b-12d3-a456-426614174000''"

text \<open>
  \<^verbatim>\<open>POST /products\<close> with \<^verbatim>\<open>Content-Type: application/json\<close> and an empty body:
  fiber hands the empty body to the JSON decoder, which fails on it.
\<close>

definition post_ctx_empty_json :: "CreateProductRequest Ctx" where
  "post_ctx_empty_json =
     post_ctx\<lparr>BodyParser := (\<lambda>req. (Some (ErrorNew ''unexpected end of JSON input''), req))\<rparr>"

text \<open>
  \<^verbatim>\<open>POST /products\<close> with the malformed body \<^verbatim>\<open>{"name":\<close> and no content type
  that fiber has a decoder for: the body is not decoded, the body parser reports
  \<open>ErrUnprocessableEntity\<close> and binds nothing.
\<close>

definition post_ctx_undecoded :: "CreateProductRequest Ctx" where
  "post_ctx_undecoded =
     post_ctx\<lparr>BodyParser := (\<lambda>req. (Some ErrUnprocessableEntity, req))\<rparr>"

text \<open>A generator that never repeats: its value number \<open>n\<close> ends in \<open>n\<close> zeros.\<close>

definition counting_uuid :: "nat \<Rightarrow> string" where
  "counting_uuid n = ''123e4567-e89b-12d3-a456-'' @ replicate n (CHR ''0'')"

section \<open>The dispatcher binds, then calls the handler\<close>

text \<open>
  Claim C5, as the code has it. For every request, \<^verbatim>\<open>handle\<close> tries the four
  sources in the order body, path parameters, query parameters, headers, and only then
  calls the handler. At the first source whose parser reports a hard error it stops and
  answers 400 with that error, without calling the handler. Of the body parser's errors
  only \<open>ErrUnprocessableEntity\<close> is spared, and every other one is a hard error: an
  absent or empty body passes only when the body parser reports \<open>ErrUnprocessableEntity\<close>
  or no error for it. A source whose parser reports no error, whether
  or not it found anything to bind, never fails the request: the handler is called exactly
  when no source reported a hard error.
\<close>

theorem handle_binds_in_order:
  assumes b: "BodyParser ctx req0 = (e1, r1)"
    and p: "ParamsParser ctx r1 = (e2, r2)"
    and q: "QueryParser ctx r2 = (e3, r3)"
    and h: "ReqHeaderParser ctx r3 = (e4, r4)"
    and res: "handle handler ctx req0 = (resp, calls)"
  shows "prefix calls binder_order \<and> calls \<noteq> [] \<and>
    (CallHandle \<in> set calls \<longleftrightarrow>
       (e1 = None \<or> e1 = Some ErrUnprocessableEntity) \<and> e2 = None \<and> e3 = None \<and> e4 = None) \<and>
    (e1 \<noteq> None \<and> e1 \<noteq> Some ErrUnprocessableEntity \<longrightarrow>
       calls = [CallBodyParser] \<and>
       resp = \<lparr>Status = StatusBadRequest, Body = ErrorJSON (the e1)\<rparr>) \<and>
    ((e1 = None \<or> e1 = Some ErrUnprocessableEntity) \<and> e2 \<noteq> None \<longrightarrow>
       calls = [CallBodyParser, CallParamsParser] \<and>
       resp = \<lparr>Status = StatusBadRequest, Body = ErrorJSON (the e2)\<rparr>) \<and>
    ((e1 = None \<or> e1 = Some ErrUnprocessableEntity) \<and> e2 = None \<and> e3 \<noteq> None \<longrightarrow>
       calls = [CallBodyParser, CallParamsParser, CallQueryParser] \<and>
       resp = \<lparr>Status = StatusBadRequest, Body = ErrorJSON (the e3)\<rparr>) \<and>
    ((e1 = None \<or> e1 = Some ErrUnprocessableEntity) \<and> e2 = None \<and> e3 = None \<and> e4 \<noteq> None \<longrightarrow>
       calls = [CallBodyParser, CallParamsParser, CallQueryParser, CallReqHeaderParser] \<and>
       resp = \<lparr>Status = StatusBadRequest, Body = ErrorJSON (the e4)\<rparr>) \<and>
    ((e1 = None \<or> e1 = Some ErrUnprocessableEntity) \<and> e2 = None \<and> e3 = None \<and> e4 = None \<longrightarrow>
       calls = binder_order \<and>
       resp = (case handler r4 of
                 Inl err \<Rightarrow> \<lparr>Status = StatusInternalServerError, Body = ErrorJSON err\<rparr>
               | Inr v \<Rightarrow> \<lparr>Status = statusCode ctx, Body = JSON v\<rparr>))"
  using assms
  by (auto simp: handle_def binder_order_def split: sum.splits if_splits)

text \<open>The theorem at a request that binds and at one failing request per source.\<close>

theorem handle_binds_in_order_witness:
  "handle (\<lambda>req. fst (GetProductHandler_Handle widget_handler outbound_ok req)) get_ctx
      \<lparr>req_ID = []\<rparr> =
     (\<lparr>Status = StatusOK,
       Body = JSON \<lparr>res_Product = \<lparr>ID = ''does-not-exist'', Name = ''Widget''\<rparr>\<rparr>\<rparr>,
      binder_order) \<and>
   handle (\<lambda>req. fst (GetProductHandler_Handle widget_handler outbound_ok req))
      get_ctx_bad_params \<lparr>req_ID = []\<rparr> =
     (\<lparr>Status = StatusBadRequest, Body = ErrorJSON (ErrorNew ''bad path parameter'')\<rparr>,
      [CallBodyParser, CallParamsParser]) \<and>
   handle (\<lambda>req. fst (GetProductHandler_Handle widget_handler outbound_ok req))
      get_ctx_bad_query \<lparr>req_ID = []\<rparr> =
     (\<lparr>Status = StatusBadRequest, Body = ErrorJSON (ErrorNew ''bad query'')\<rparr>,
      [CallBodyParser, CallParamsParser, CallQueryParser]) \<and>
   handle (\<lambda>req. fst (GetProductHandler_Handle widget_handler outbound_ok req))
      get_ctx_bad_header \<lparr>req_ID = []\<rparr> =
     (\<lparr>Status = StatusBadRequest, Body = ErrorJSON (ErrorNew ''bad header'')\<rparr>,
      [CallBodyParser, CallParamsParser, CallQueryParser, CallReqHeaderParser]) \<and>
   handle (\<lambda>req. fst (CreateProductHandler_Handle widget_store some_uuid req))
      post_ctx_bad_body \<lparr>req_Name = []\<rparr> =
     (\<lparr>Status = StatusBadRequest, Body = ErrorJSON (ErrorNew ''invalid character'')\<rparr>,
      [CallBodyParser])"
proof -
  let ?f = "\<lambda>req. fst (GetProductHandler_Handle widget_handler outbound_ok req)"
  let ?g = "\<lambda>req. fst (CreateProductHandler_Handle widget_store some_uuid req)"
  let ?r0 = "\<lparr>req_ID = []\<rparr>"
  let ?r1 = "\<lparr>req_ID = ''does-not-exist''\<rparr>"
  have pair: "\<And>x. x = (fst x, snd x)" by simp
  have f: "?f ?r1 = Inr \<lparr>res_Product = \<lparr>ID = ''does-not-exist'', Name = ''Widget''\<rparr>\<rparr>"
    by (simp add: GetProductHandler_Handle_def widget_handler_def widget_store_def
        outbound_ok_def)
  have 1: "handle ?f get_ctx ?r0 =
     (\<lparr>Status = StatusOK,
       Body = JSON \<lparr>res_Product = \<lparr>ID = ''does-not-exist'', Name = ''Widget''\<rparr>\<rparr>\<rparr>,
      binder_order)"
    using handle_binds_in_order [where handler = ?f and ctx = get_ctx and ?req0.0 = ?r0
        and ?e1.0 = "Some ErrUnprocessableEntity" and ?r1.0 = ?r0
        and ?e2.0 = None and ?r2.0 = ?r1 and ?e3.0 = None and ?r3.0 = ?r1
        and ?e4.0 = None and ?r4.0 = ?r1, OF _ _ _ _ pair] f
    by (simp add: get_ctx_def prod_eq_iff)
  have 2: "handle ?f get_ctx_bad_params ?r0 =
     (\<lparr>Status = StatusBadRequest, Body = ErrorJSON (ErrorNew ''bad path parameter'')\<rparr>,
      [CallBodyParser, CallParamsParser])"
    using handle_binds_in_order [where handler = ?f and ctx = get_ctx_bad_params
        and ?req0.0 = ?r0 and ?e1.0 = "Some ErrUnprocessableEntity" and ?r1.0 = ?r0
        and ?e2.0 = "Some (ErrorNew ''bad path parameter'')" and ?r2.0 = ?r0
        and ?e3.0 = None and ?r3.0 = ?r0 and ?e4.0 = None and ?r4.0 = ?r0, OF _ _ _ _ pair]
    by (simp add: get_ctx_bad_params_def get_ctx_def prod_eq_iff)
  have 3: "handle ?f get_ctx_bad_query ?r0 =
     (\<lparr>Status = StatusBadRequest, Body = ErrorJSON (ErrorNew ''bad query'')\<rparr>,
      [CallBodyParser, CallParamsParser, CallQueryParser])"
    using handle_binds_in_order [where handler = ?f and ctx = get_ctx_bad_query
        and ?req0.0 = ?r0 and ?e1.0 = "Some ErrUnprocessableEntity" and ?r1.0 = ?r0
        and ?e2.0 = None and ?r2.0 = ?r1
        and ?e3.0 = "Some (ErrorNew ''bad query'')" and ?r3.0 = ?r1
        and ?e4.0 = None and ?r4.0 = ?r1, OF _ _ _ _ pair]
    by (simp add: get_ctx_bad_query_def get_ctx_def prod_eq_iff)
  have 4: "handle ?f get_ctx_bad_header ?r0 =
     (\<lparr>Status = StatusBadRequest, Body = ErrorJSON (ErrorNew ''bad header'')\<rparr>,
      [CallBodyParser, CallParamsParser, CallQueryParser, CallReqHeaderParser])"
    using handle_binds_in_order [where handler = ?f and ctx = get_ctx_bad_header
        and ?req0.0 = ?r0 and ?e1.0 = "Some ErrUnprocessableEntity" and ?r1.0 = ?r0
        and ?e2.0 = None and ?r2.0 = ?r1 and ?e3.0 = None and ?r3.0 = ?r1
        and ?e4.0 = "Some (ErrorNew ''bad header'')" and ?r4.0 = ?r1, OF _ _ _ _ pair]
    by (simp add: get_ctx_bad_header_def get_ctx_def prod_eq_iff)
  have 5: "handle ?g post_ctx_bad_body \<lparr>req_Name = []\<rparr> =
     (\<lparr>Status = StatusBadRequest, Body = ErrorJSON (ErrorNew ''invalid character'')\<rparr>,
      [CallBodyParser])"
    using handle_binds_in_order [where handler = ?g and ctx = post_ctx_bad_body
        and ?req0.0 = "\<lparr>req_Name = []\<rparr>"
        and ?e1.0 = "Some (ErrorNew ''invalid character'')" and ?r1.0 = "\<lparr>req_Name = []\<rparr>"
        and ?e2.0 = None and ?r2.0 = "\<lparr>req_Name = []\<rparr>"
        and ?e3.0 = None and ?r3.0 = "\<lparr>req_Name = []\<rparr>"
        and ?e4.0 = None and ?r4.0 = "\<lparr>req_Name = []\<rparr>", OF _ _ _ _ pair]
    by (simp add: post_ctx_bad_body_def post_ctx_def prod_eq_iff)
  from 1 2 3 4 5 show ?thesis by (simp only: simp_thms)
qed

text \<open>
  Claim C5 as stated fails: an empty body sent as JSON is treated as an error; the answer
  is 400 and the handler is not called.
\<close>

theorem handle_empty_body_counterexample:
  "POST_products widget_store some_uuid post_ctx_empty_json =
     (\<lparr>Status = 400, Body = ErrorJSON (ErrorNew ''unexpected end of JSON input'')\<rparr>,
      [CallBodyParser]) \<and>
   CallHandle \<notin> set (snd (POST_products widget_store some_uuid post_ctx_empty_json))"
  by (simp add: POST_products_def handle_def post_ctx_empty_json_def post_ctx_def
      StatusBadRequest_def)

section \<open>The guarded call comes before the lookup\<close>

text \<open>
  Claim C8. \<^verbatim>\<open>GetProductHandler.Handle\<close> makes the breaker-guarded outbound call before
  it consults the repository. If the guarded call fails with an error, whatever the error
  (an open breaker included), \<^verbatim>\<open>GetProduct\<close> is never called, and the handler
  returns that error once the call was made. \<^verbatim>\<open>GetProduct\<close> is called only with the
  ID of the request and only after the guarded call has succeeded.
\<close>

theorem Handle_guarded_call_first:
  assumes "GetProductHandler_Handle h out req = (res, evs)"
  shows "(\<forall>err. breaker_Execute out = Inl err \<longrightarrow>
            (\<forall>ident. EvGetProduct ident \<notin> set evs) \<and>
            (EvExecute \<in> set evs \<longrightarrow> res = Inl err)) \<and>
         (\<forall>ident. EvGetProduct ident \<in> set evs \<longrightarrow>
            ident = req_ID req \<and>
            (\<exists>httpResp. breaker_Execute out = Inr httpResp) \<and>
            evs = [EvExecute, EvReadAll, EvGetProduct (req_ID req)] \<and>
            res = (case GetProduct (repository h) (req_ID req) of
                     Inl err \<Rightarrow> Inl err
                   | Inr product \<Rightarrow> Inr \<lparr>res_Product = product\<rparr>))"
  using assms
  by (auto simp: GetProductHandler_Handle_def split: option.splits sum.splits prod.splits)

text \<open>The theorem at an open breaker and at a call that succeeds.\<close>

theorem Handle_guarded_call_first_witness:
  "GetProductHandler_Handle widget_handler outbound_open \<lparr>req_ID = ''42''\<rparr> =
     (Inl BreakerOpenError, [EvExecute]) \<and>
   GetProductHandler_Handle widget_handler outbound_ok \<lparr>req_ID = ''42''\<rparr> =
     (Inr \<lparr>res_Product = \<lparr>ID = ''42'', Name = ''Widget''\<rparr>\<rparr>,
      [EvExecute, EvReadAll, EvGetProduct ''42''])"
proof -
  have pair: "\<And>x. x = (fst x, snd x)" by simp
  have a: "EvExecute \<in> set (snd (GetProductHandler_Handle widget_handler outbound_open
      \<lparr>req_ID = ''42''\<rparr>))"
    by (simp add: GetProductHandler_Handle_def outbound_open_def)
  have b: "EvGetProduct ''42'' \<in> set (snd (GetProductHandler_Handle widget_handler outbound_ok
      \<lparr>req_ID = ''42''\<rparr>))"
    by (simp add: GetProductHandler_Handle_def outbound_ok_def widget_handler_def
        widget_store_def)
  have 1: "GetProductHandler_Handle widget_handler outbound_open \<lparr>req_ID = ''42''\<rparr> =
     (Inl BreakerOpenError, [EvExecute])"
    using Handle_guarded_call_first [where h = widget_handler and out = outbound_open
        and req = "\<lparr>req_ID = ''42''\<rparr>", OF pair] a
    by (auto simp: outbound_open_def prod_eq_iff GetProductHandler_Handle_def)
  have 2: "GetProductHandler_Handle widget_handler outbound_ok \<lparr>req_ID = ''42''\<rparr> =
     (Inr \<lparr>res_Product = \<lparr>ID = ''42'', Name = ''Widget''\<rparr>\<rparr>,
      [EvExecute, EvReadAll, EvGetProduct ''42''])"
    using Handle_guarded_call_first [where h = widget_handler and out = outbound_ok
        and req = "\<lparr>req_ID = ''42''\<rparr>", OF pair] b
    by (auto simp: prod_eq_iff widget_handler_def widget_store_def)
  from 1 2 show ?thesis by (simp only: simp_thms)
qed

section \<open>The response body of the dependency is discarded\<close>

text \<open>
  Claim C10. Take two runs of \<^verbatim>\<open>GetProductHandler.Handle\<close> in which the guarded call
  succeeds, with any two responses, and in which the repository is consulted and returns
  the same product. Then both runs return the same \<^verbatim>\<open>GetProductResponse\<close>, the one
  holding that product: the bytes read from the response body are dropped and have no
  influence on the result.
\<close>

theorem Handle_ignores_response_body:
  assumes "breaker_Execute out1 = Inr resp1" and "breaker_Execute out2 = Inr resp2"
    and "GetProductHandler_Handle h1 out1 req1 = (res1, evs1)"
    and "GetProductHandler_Handle h2 out2 req2 = (res2, evs2)"
    and "EvGetProduct (req_ID req1) \<in> set evs1" and "EvGetProduct (req_ID req2) \<in> set evs2"
    and "GetProduct (repository h1) (req_ID req1) = Inr product"
    and "GetProduct (repository h2) (req_ID req2) = Inr product"
  shows "res1 = Inr \<lparr>res_Product = product\<rparr> \<and> res2 = res1"
  using assms
  by (auto simp: GetProductHandler_Handle_def split: option.splits sum.splits prod.splits)

text \<open>The theorem at an empty response body and at one of three bytes.\<close>

theorem Handle_ignores_response_body_witness:
  "fst (GetProductHandler_Handle widget_handler outbound_ok \<lparr>req_ID = ''42''\<rparr>) =
     Inr \<lparr>res_Product = \<lparr>ID = ''42'', Name = ''Widget''\<rparr>\<rparr> \<and>
   fst (GetProductHandler_Handle widget_handler outbound_ok_body \<lparr>req_ID = ''42''\<rparr>) =
   fst (GetProductHandler_Handle widget_handler outbound_ok \<lparr>req_ID = ''42''\<rparr>) \<and>
   resp_Body (projr (breaker_Execute outbound_ok)) \<noteq>
   resp_Body (projr (breaker_Execute outbound_ok_body))"
proof -
  have pair: "\<And>x. x = (fst x, snd x)" by simp
  have e1: "breaker_Execute outbound_ok = Inr \<lparr>StatusCode = 200, resp_Body = Reader [] None\<rparr>"
    by (simp add: outbound_ok_def)
  have e2: "breaker_Execute outbound_ok_body =
      Inr \<lparr>StatusCode = 200, resp_Body = Reader [1, 2, 3] None\<rparr>"
    by (simp add: outbound_ok_body_def)
  have g: "GetProduct (repository widget_handler) (req_ID \<lparr>req_ID = ''42''\<rparr>) =
      Inr \<lparr>ID = ''42'', Name = ''Widget''\<rparr>"
    by (simp add: widget_handler_def widget_store_def)
  have v1: "EvGetProduct (req_ID \<lparr>req_ID = ''42''\<rparr>) \<in>
      set (snd (GetProductHandler_Handle widget_handler outbound_ok \<lparr>req_ID = ''42''\<rparr>))"
    by (simp add: GetProductHandler_Handle_def outbound_ok_def widget_handler_def
        widget_store_def)
  have v2: "EvGetProduct (req_ID \<lparr>req_ID = ''42''\<rparr>) \<in>
      set (snd (GetProductHandler_Handle widget_handler outbound_ok_body \<lparr>req_ID = ''42''\<rparr>))"
    by (simp add: GetProductHandler_Handle_def outbound_ok_body_def widget_handler_def
        widget_store_def)
  from Handle_ignores_response_body [OF e1 e2 pair pair v1 v2 g g]
  show ?thesis by (simp add: e1 e2)
qed

section \<open>Status codes of \<^verbatim>\<open>GET /products/:id\<close>\<close>

lemma handle_bound:
  assumes "BodyParser ctx req0 = (e1, r1)" "e1 = None \<or> e1 = Some ErrUnprocessableEntity"
    and "ParamsParser ctx r1 = (None, r2)" "QueryParser ctx r2 = (None, r3)"
    and "ReqHeaderParser ctx r3 = (None, r4)"
  shows "fst (handle handler ctx req0) =
    (case handler r4 of
       Inl err \<Rightarrow> \<lparr>Status = StatusInternalServerError, Body = ErrorJSON err\<rparr>
     | Inr res \<Rightarrow> \<lparr>Status = statusCode ctx, Body = JSON res\<rparr>)"
  using assms by (auto simp: handle_def split: sum.splits)

lemma handle_unbound:
  assumes "BodyParser ctx req0 = (e1, r1)" "ParamsParser ctx r1 = (e2, r2)"
    and "QueryParser ctx r2 = (e3, r3)" "ReqHeaderParser ctx r3 = (e4, r4)"
    and "\<not> ((e1 = None \<or> e1 = Some ErrUnprocessableEntity) \<and> e2 = None \<and> e3 = None \<and> e4 = None)"
  shows "Status (fst (handle handler ctx req0)) = StatusBadRequest"
  using assms by (auto simp: handle_def split: sum.splits)

text \<open>
  Claim C6, as the code has it. For \<^verbatim>\<open>GET /products/:id\<close> the dispatcher answers 400
  when binding fails and 500 with the error message whenever the handler returns an error:
  the store's "product not found", an open breaker, a failed or timed-out outbound call
  and a storage fault all get the same status. On success the status is the one the
  response started with and the body is the product. The sources say 404 nowhere: a
  document that is not found becomes the plain error "product not found".
\<close>

theorem GET_products_status:
  assumes "BodyParser ctx \<lparr>req_ID = []\<rparr> = (e1, r1)" and "ParamsParser ctx r1 = (e2, r2)"
    and "QueryParser ctx r2 = (e3, r3)" and "ReqHeaderParser ctx r3 = (e4, r4)"
  shows
    "(\<not> ((e1 = None \<or> e1 = Some ErrUnprocessableEntity) \<and> e2 = None \<and> e3 = None \<and> e4 = None)
        \<longrightarrow> Status (fst (GET_products h out ctx)) = StatusBadRequest) \<and>
     ((e1 = None \<or> e1 = Some ErrUnprocessableEntity) \<and> e2 = None \<and> e3 = None \<and> e4 = None
        \<longrightarrow>
        (\<forall>err. fst (GetProductHandler_Handle h out r4) = Inl err \<longrightarrow>
           fst (GET_products h out ctx) =
             \<lparr>Status = StatusInternalServerError, Body = ErrorJSON err\<rparr>) \<and>
        (\<forall>res. fst (GetProductHandler_Handle h out r4) = Inr res \<longrightarrow>
           fst (GET_products h out ctx) = \<lparr>Status = statusCode ctx, Body = JSON res\<rparr>)) \<and>
     (\<forall>get decode ident. get ident = Inl ErrDocumentNotFound \<longrightarrow>
        CouchBaseRepository_GetProduct get decode ident = Inl (ErrorNew ''product not found''))"
proof -
  have 1: "Status (fst (GET_products h out ctx)) = StatusBadRequest"
    if "\<not> ((e1 = None \<or> e1 = Some ErrUnprocessableEntity) \<and> e2 = None \<and> e3 = None \<and> e4 = None)"
    unfolding GET_products_def using handle_unbound [OF assms that] .
  have 2: "fst (GET_products h out ctx) =
      (case fst (GetProductHandler_Handle h out r4) of
         Inl err \<Rightarrow> \<lparr>Status = StatusInternalServerError, Body = ErrorJSON err\<rparr>
       | Inr res \<Rightarrow> \<lparr>Status = statusCode ctx, Body = JSON res\<rparr>)"
    if "(e1 = None \<or> e1 = Some ErrUnprocessableEntity) \<and> e2 = None \<and> e3 = None \<and> e4 = None"
    unfolding GET_products_def using handle_bound [of ctx _ e1 r1 r2 r3 r4] assms that by simp
  have 3: "CouchBaseRepository_GetProduct get decode ident = Inl (ErrorNew ''product not found'')"
    if "get ident = Inl ErrDocumentNotFound"
    for get :: "string \<Rightarrow> error + 'd" and decode ident
    using that by (simp add: CouchBaseRepository_GetProduct_def)
  show ?thesis using 1 2 3 by (auto split: sum.splits)
qed

text \<open>
  The theorem at a lookup of a missing product, at an open breaker, at a product that is
  found and at a path parameter that does not parse.
\<close>

theorem GET_products_status_witness:
  "fst (GET_products empty_handler outbound_ok get_ctx) =
     \<lparr>Status = StatusInternalServerError, Body = ErrorJSON (ErrorNew ''product not found'')\<rparr> \<and>
   fst (GET_products widget_handler outbound_open get_ctx) =
     \<lparr>Status = StatusInternalServerError, Body = ErrorJSON BreakerOpenError\<rparr> \<and>
   fst (GET_products widget_handler outbound_ok get_ctx) =
     \<lparr>Status = StatusOK,
      Body = JSON \<lparr>res_Product = \<lparr>ID = ''does-not-exist'', Name = ''Widget''\<rparr>\<rparr>\<rparr> \<and>
   Status (fst (GET_products widget_handler outbound_ok get_ctx_bad_params)) = StatusBadRequest"
proof -
  let ?r0 = "\<lparr>req_ID = []\<rparr>"
  let ?r1 = "\<lparr>req_ID = ''does-not-exist''\<rparr>"
  have b: "BodyParser get_ctx ?r0 = (Some ErrUnprocessableEntity, ?r0)"
    and p: "ParamsParser get_ctx ?r0 = (None, ?r1)"
    and q: "QueryParser get_ctx ?r1 = (None, ?r1)"
    and h: "ReqHeaderParser get_ctx ?r1 = (None, ?r1)"
    by (simp_all add: get_ctx_def)
  have b': "BodyParser get_ctx_bad_params ?r0 = (Some ErrUnprocessableEntity, ?r0)"
    and p': "ParamsParser get_ctx_bad_params ?r0 = (Some (ErrorNew ''bad path parameter''), ?r0)"
    and q': "QueryParser get_ctx_bad_params ?r0 = (None, ?r0)"
    and h': "ReqHeaderParser get_ctx_bad_params ?r0 = (None, ?r0)"
    by (simp_all add: get_ctx_bad_params_def get_ctx_def)
  have 1: "fst (GetProductHandler_Handle empty_handler outbound_ok ?r1) =
      Inl (ErrorNew ''product not found'')"
    by (simp add: GetProductHandler_Handle_def empty_handler_def empty_store_def
        outbound_ok_def CouchBaseRepository_GetProduct_def)
  have 2: "fst (GetProductHandler_Handle widget_handler outbound_open ?r1) =
      Inl BreakerOpenError"
    by (simp add: GetProductHandler_Handle_def outbound_open_def)
  have 3: "fst (GetProductHandler_Handle widget_handler outbound_ok ?r1) =
      Inr \<lparr>res_Product = \<lparr>ID = ''does-not-exist'', Name = ''Widget''\<rparr>\<rparr>"
    by (simp add: GetProductHandler_Handle_def widget_handler_def widget_store_def
        outbound_ok_def)
  have s: "statusCode get_ctx = StatusOK" by (simp add: get_ctx_def)
  show ?thesis
    using GET_products_status [OF b p q h, of empty_handler outbound_ok]
      GET_products_status [OF b p q h, of widget_handler outbound_open]
      GET_products_status [OF b p q h, of widget_handler outbound_ok]
      GET_products_status [OF b' p' q' h', of widget_handler outbound_ok]
      1 2 3 s
    by auto
qed

text \<open>
  Claim C6 as stated fails: the store reports the product as not found and the status
  is 500, not 404; the breaker is open and the status is 500, not 503.
\<close>

theorem GET_products_not_found_counterexample:
  "GetProduct (repository empty_handler) ''does-not-exist'' =
     Inl (ErrorNew ''product not found'') \<and>
   Status (fst (GET_products empty_handler outbound_ok get_ctx)) = 500 \<and>
   Status (fst (GET_products empty_handler outbound_ok get_ctx)) \<noteq> StatusNotFound \<and>
   breaker_Execute outbound_open = Inl BreakerOpenError \<and>
   Status (fst (GET_products widget_handler outbound_open get_ctx)) = 500 \<and>
   Status (fst (GET_products widget_handler outbound_open get_ctx)) \<noteq> StatusServiceUnavailable"
  by (simp add: GET_products_def handle_def GetProductHandler_Handle_def get_ctx_def
      empty_handler_def empty_store_def widget_handler_def outbound_ok_def outbound_open_def
      CouchBaseRepository_GetProduct_def StatusInternalServerError_def StatusNotFound_def
      StatusServiceUnavailable_def)

section \<open>\<^verbatim>\<open>POST /products\<close>\<close>

lemma POST_products_issues:
  assumes "Body (fst (POST_products repo uuid ctx)) = JSON res"
  shows "res_ID res = uuid \<and> CallHandle \<in> set (snd (POST_products repo uuid ctx))"
  using assms
  by (auto simp: POST_products_def handle_def CreateProductHandler_Handle_def Let_def
      split: prod.splits if_splits option.splits sum.splits)

lemma issued_ids_from:
  "set (issued_ids (POST_products_all repo uuid_New n ctxs)) \<subseteq> uuid_New ` {n..}"
proof (induction ctxs arbitrary: n)
  case Nil
  then show ?case by simp
next
  case (Cons ctx ctxs)
  define r where "r = POST_products repo (uuid_New n) ctx"
  define n' where "n' = (if CallHandle \<in> set (snd r) then Suc n else n)"
  have "n \<le> n'" by (simp add: n'_def)
  then have "uuid_New ` {n'..} \<subseteq> uuid_New ` {n..}" by auto
  with Cons.IH [of n'] have tl: "set (issued_ids (POST_products_all repo uuid_New n' ctxs))
      \<subseteq> uuid_New ` {n..}" by blast
  have hd: "res_ID res = uuid_New n" if "Body (fst r) = JSON res" for res
    using POST_products_issues [of repo "uuid_New n" ctx res] that by (simp add: r_def)
  have step: "POST_products_all repo uuid_New n (ctx # ctxs) =
      r # POST_products_all repo uuid_New n' ctxs"
    by (simp add: r_def n'_def Let_def)
  have "issued_ids (r # rest) =
      (case Body (fst r) of
         JSON res \<Rightarrow> res_ID res # issued_ids rest
       | ErrorJSON err \<Rightarrow> issued_ids rest)" for rest
    by (cases r) simp
  then have unf: "issued_ids (POST_products_all repo uuid_New n (ctx # ctxs)) =
      (case Body (fst r) of
         JSON res \<Rightarrow> res_ID res # issued_ids (POST_products_all repo uuid_New n' ctxs)
       | ErrorJSON err \<Rightarrow> issued_ids (POST_products_all repo uuid_New n' ctxs))"
    by (simp only: step)
  show ?case
    unfolding unf using tl hd by (cases "Body (fst r)") auto
qed

lemma issued_ids_distinct:
  assumes "inj uuid_New"
  shows "distinct (issued_ids (POST_products_all repo uuid_New n ctxs))"
proof (induction ctxs arbitrary: n)
  case Nil
  then show ?case by simp
next
  case (Cons ctx ctxs)
  define r where "r = POST_products repo (uuid_New n) ctx"
  define n' where "n' = (if CallHandle \<in> set (snd r) then Suc n else n)"
  have d: "distinct (issued_ids (POST_products_all repo uuid_New n' ctxs))"
    by (rule Cons.IH)
  have new: "uuid_New n \<notin> set (issued_ids (POST_products_all repo uuid_New n' ctxs))"
    if "Body (fst r) = JSON res" for res
  proof -
    have "n' = Suc n"
      using POST_products_issues [of repo "uuid_New n" ctx res] that by (simp add: r_def n'_def)
    moreover have "uuid_New n \<notin> uuid_New ` {Suc n..}"
      using assms by (auto dest: injD)
    ultimately show ?thesis
      using issued_ids_from [of repo uuid_New "Suc n" ctxs] by auto
  qed
  have hd: "res_ID res = uuid_New n" if "Body (fst r) = JSON res" for res
    using POST_products_issues [of repo "uuid_New n" ctx res] that by (simp add: r_def)
  have step: "POST_products_all repo uuid_New n (ctx # ctxs) =
      r # POST_products_all repo uuid_New n' ctxs"
    by (simp add: r_def n'_def Let_def)
  have "issued_ids (r # rest) =
      (case Body (fst r) of
         JSON res \<Rightarrow> res_ID res # issued_ids rest
       | ErrorJSON err \<Rightarrow> issued_ids rest)" for rest
    by (cases r) simp
  then have unf: "issued_ids (POST_products_all repo uuid_New n (ctx # ctxs)) =
      (case Body (fst r) of
         JSON res \<Rightarrow> res_ID res # issued_ids (POST_products_all repo uuid_New n' ctxs)
       | ErrorJSON err \<Rightarrow> issued_ids (POST_products_all repo uuid_New n' ctxs))"
    by (simp only: step)
  show ?case
    unfolding unf using d new hd by (cases "Body (fst r)") auto
qed

lemma counting_uuid_inj: "inj counting_uuid"
proof (rule injI)
  fix m n assume "counting_uuid m = counting_uuid n"
  then have "replicate m (CHR ''0'') = replicate n (CHR ''0'')"
    by (simp add: counting_uuid_def)
  then have "length (replicate m (CHR ''0'')) = length (replicate n (CHR ''0''))"
    by (simp only:)
  then show "m = n" by simp
qed

text \<open>
  Claim C7, as the code has it. \<^verbatim>\<open>POST /products\<close> with a body that binds answers
  with the status the response started with (fiber's 200: \<^verbatim>\<open>handle\<close> sets no status
  on success, and 201 appears nowhere) and the body \<^verbatim>\<open>{"id": ...}\<close>. The id is the
  UUID generated for this request and the ID of the one product handed to
  \<^verbatim>\<open>CreateProduct\<close>, whose name is the bound name. It is fresh: every request that
  reaches the handler takes a new value of \<^verbatim>\<open>uuid.New()\<close>, so as long as the generator
  does not repeat itself, no two responses carry the same id and no id was drawn before.
  A malformed body is answered with 400 when the body parser reports an error other than
  \<open>ErrUnprocessableEntity\<close>; when it reports \<open>ErrUnprocessableEntity\<close> the request is
  not rejected. A failure of \<^verbatim>\<open>CreateProduct\<close> is answered with 500.
\<close>

theorem POST_products_response:
  assumes "BodyParser ctx \<lparr>req_Name = []\<rparr> = (e1, r1)" and "ParamsParser ctx r1 = (e2, r2)"
    and "QueryParser ctx r2 = (e3, r3)" and "ReqHeaderParser ctx r3 = (e4, r4)"
  shows
    "(e1 \<noteq> None \<and> e1 \<noteq> Some ErrUnprocessableEntity \<longrightarrow>
        POST_products repo uuid ctx =
          (\<lparr>Status = StatusBadRequest, Body = ErrorJSON (the e1)\<rparr>, [CallBodyParser])) \<and>
     ((e1 = None \<or> e1 = Some ErrUnprocessableEntity) \<and> e2 = None \<and> e3 = None \<and> e4 = None
        \<longrightarrow>
        snd (CreateProductHandler_Handle repo uuid r4) =
          [EvCreateProduct \<lparr>ID = uuid, Name = req_Name r4\<rparr>] \<and>
        (CreateProduct repo \<lparr>ID = uuid, Name = req_Name r4\<rparr> = None \<longrightarrow>
           fst (POST_products repo uuid ctx) =
             \<lparr>Status = statusCode ctx, Body = JSON \<lparr>res_ID = uuid\<rparr>\<rparr>) \<and>
        (\<forall>err. CreateProduct repo \<lparr>ID = uuid, Name = req_Name r4\<rparr> = Some err \<longrightarrow>
           fst (POST_products repo uuid ctx) =
             \<lparr>Status = StatusInternalServerError, Body = ErrorJSON err\<rparr>)) \<and>
     (inj uuid_New \<longrightarrow>
        distinct (issued_ids (POST_products_all repo uuid_New n ctxs)) \<and>
        set (issued_ids (POST_products_all repo uuid_New n ctxs)) \<subseteq> uuid_New ` {n..})"
proof -
  have 1: "POST_products repo uuid ctx =
      (\<lparr>Status = StatusBadRequest, Body = ErrorJSON (the e1)\<rparr>, [CallBodyParser])"
    if "e1 \<noteq> None \<and> e1 \<noteq> Some ErrUnprocessableEntity"
    using that assms(1) by (simp add: POST_products_def handle_def)
  have 2: "fst (POST_products repo uuid ctx) =
      (case fst (CreateProductHandler_Handle repo uuid r4) of
         Inl err \<Rightarrow> \<lparr>Status = StatusInternalServerError, Body = ErrorJSON err\<rparr>
       | Inr res \<Rightarrow> \<lparr>Status = statusCode ctx, Body = JSON res\<rparr>)"
    if "(e1 = None \<or> e1 = Some ErrUnprocessableEntity) \<and> e2 = None \<and> e3 = None \<and> e4 = None"
    unfolding POST_products_def using handle_bound [of ctx _ e1 r1 r2 r3 r4] assms that by simp
  have 3: "CreateProductHandler_Handle repo uuid r4 =
      (case CreateProduct repo \<lparr>ID = uuid, Name = req_Name r4\<rparr> of
         Some err \<Rightarrow> (Inl err, [EvCreateProduct \<lparr>ID = uuid, Name = req_Name r4\<rparr>])
       | None \<Rightarrow> (Inr \<lparr>res_ID = uuid\<rparr>, [EvCreateProduct \<lparr>ID = uuid, Name = req_Name r4\<rparr>]))"
    by (simp add: CreateProductHandler_Handle_def Let_def split: option.splits)
  have 4: "distinct (issued_ids (POST_products_all repo uuid_New n ctxs)) \<and>
      set (issued_ids (POST_products_all repo uuid_New n ctxs)) \<subseteq> uuid_New ` {n..}"
    if "inj uuid_New"
    using issued_ids_distinct [OF that] issued_ids_from by blast
  have 123: "(e1 \<noteq> None \<and> e1 \<noteq> Some ErrUnprocessableEntity \<longrightarrow>
        POST_products repo uuid ctx =
          (\<lparr>Status = StatusBadRequest, Body = ErrorJSON (the e1)\<rparr>, [CallBodyParser])) \<and>
     ((e1 = None \<or> e1 = Some ErrUnprocessableEntity) \<and> e2 = None \<and> e3 = None \<and> e4 = None
        \<longrightarrow>
        snd (CreateProductHandler_Handle repo uuid r4) =
          [EvCreateProduct \<lparr>ID = uuid, Name = req_Name r4\<rparr>] \<and>
        (CreateProduct repo \<lparr>ID = uuid, Name = req_Name r4\<rparr> = None \<longrightarrow>
           fst (POST_products repo uuid ctx) =
             \<lparr>Status = statusCode ctx, Body = JSON \<lparr>res_ID = uuid\<rparr>\<rparr>) \<and>
        (\<forall>err. CreateProduct repo \<lparr>ID = uuid, Name = req_Name r4\<rparr> = Some err \<longrightarrow>
           fst (POST_products repo uuid ctx) =
             \<lparr>Status = StatusInternalServerError, Body = ErrorJSON err\<rparr>))"
    using 1 2 3 by (auto split: option.splits)
  show ?thesis using 123 4 by blast
qed

text \<open>
  The theorem at a body that binds, at one that does not parse, and at three requests in
  a row, the second of which does not parse.
\<close>

theorem POST_products_response_witness:
  "fst (POST_products widget_store some_uuid post_ctx) =
     \<lparr>Status = StatusOK, Body = JSON \<lparr>res_ID = some_uuid\<rparr>\<rparr> \<and>
   snd (CreateProductHandler_Handle widget_store some_uuid \<lparr>req_Name = ''Widget''\<rparr>) =
     [EvCreateProduct \<lparr>ID = some_uuid, Name = ''Widget''\<rparr>] \<and>
   POST_products widget_store some_uuid post_ctx_bad_body =
     (\<lparr>Status = StatusBadRequest, Body = ErrorJSON (ErrorNew ''invalid character'')\<rparr>,
      [CallBodyParser]) \<and>
   issued_ids (POST_products_all widget_store counting_uuid 0
      [post_ctx, post_ctx_bad_body, post_ctx]) = [counting_uuid 0, counting_uuid 1] \<and>
   distinct (issued_ids (POST_products_all widget_store counting_uuid 0
      [post_ctx, post_ctx_bad_body, post_ctx]))"
proof -
  let ?r0 = "\<lparr>req_Name = []\<rparr>"
  let ?r1 = "\<lparr>req_Name = ''Widget''\<rparr>"
  let ?ctxs = "[post_ctx, post_ctx_bad_body, post_ctx]"
  have b: "BodyParser post_ctx ?r0 = (None, ?r1)"
    and p: "ParamsParser post_ctx ?r1 = (None, ?r1)"
    and q: "QueryParser post_ctx ?r1 = (None, ?r1)"
    and h: "ReqHeaderParser post_ctx ?r1 = (None, ?r1)"
    by (simp_all add: post_ctx_def)
  have b': "BodyParser post_ctx_bad_body ?r0 = (Some (ErrorNew ''invalid character''), ?r0)"
    and p': "ParamsParser post_ctx_bad_body ?r0 = (None, ?r0)"
    and q': "QueryParser post_ctx_bad_body ?r0 = (None, ?r0)"
    and h': "ReqHeaderParser post_ctx_bad_body ?r0 = (None, ?r0)"
    by (simp_all add: post_ctx_bad_body_def post_ctx_def)
  have c: "CreateProduct widget_store \<lparr>ID = some_uuid, Name = ''Widget''\<rparr> = None"
    by (simp add: widget_store_def)
  have s: "statusCode post_ctx = StatusOK" by (simp add: post_ctx_def)
  have ok: "POST_products widget_store u post_ctx =
      (\<lparr>Status = StatusOK, Body = JSON \<lparr>res_ID = u\<rparr>\<rparr>, binder_order)" for u
    by (simp add: POST_products_def handle_def CreateProductHandler_Handle_def post_ctx_def
        widget_store_def binder_order_def)
  have bad: "POST_products widget_store u post_ctx_bad_body =
      (\<lparr>Status = StatusBadRequest, Body = ErrorJSON (ErrorNew ''invalid character'')\<rparr>,
       [CallBodyParser])" for u
    by (simp add: POST_products_def handle_def post_ctx_bad_body_def post_ctx_def)
  have ids: "issued_ids (POST_products_all widget_store counting_uuid 0 ?ctxs) =
      [counting_uuid 0, counting_uuid 1]"
    by (simp add: ok bad binder_order_def)
  have 1: "fst (POST_products widget_store some_uuid post_ctx) =
     \<lparr>Status = StatusOK, Body = JSON \<lparr>res_ID = some_uuid\<rparr>\<rparr> \<and>
   snd (CreateProductHandler_Handle widget_store some_uuid \<lparr>req_Name = ''Widget''\<rparr>) =
     [EvCreateProduct \<lparr>ID = some_uuid, Name = ''Widget''\<rparr>] \<and>
   distinct (issued_ids (POST_products_all widget_store counting_uuid 0 ?ctxs))"
    using POST_products_response [OF b p q h, where repo = widget_store and uuid = some_uuid
        and uuid_New = counting_uuid and n = 0 and ctxs = ?ctxs] c s counting_uuid_inj
    by simp
  have 2: "POST_products widget_store some_uuid post_ctx_bad_body =
     (\<lparr>Status = StatusBadRequest, Body = ErrorJSON (ErrorNew ''invalid character'')\<rparr>,
      [CallBodyParser])"
    using POST_products_response [OF b' p' q' h', where repo = widget_store
        and uuid = some_uuid and uuid_New = counting_uuid and n = 0 and ctxs = "[]"]
    by simp
  from 1 2 ids show ?thesis by (simp only: simp_thms)
qed

text \<open>
  Claim C7 as stated fails: a product is created from a well-formed body and the status
  is 200, not 201; a malformed body that fiber does not decode is answered 200, not 400,
  and a product with an empty name is created.
\<close>

theorem POST_products_created_counterexample:
  "POST_products widget_store some_uuid post_ctx =
     (\<lparr>Status = 200, Body = JSON \<lparr>res_ID = some_uuid\<rparr>\<rparr>, binder_order) \<and>
   Status (fst (POST_products widget_store some_uuid post_ctx)) \<noteq> StatusCreated \<and>
   POST_products widget_store some_uuid post_ctx_undecoded =
     (\<lparr>Status = 200, Body = JSON \<lparr>res_ID = some_uuid\<rparr>\<rparr>, binder_order) \<and>
   Status (fst (POST_products widget_store some_uuid post_ctx_undecoded)) \<noteq> StatusBadRequest \<and>
   snd (CreateProductHandler_Handle widget_store some_uuid \<lparr>req_Name = []\<rparr>) =
     [EvCreateProduct \<lparr>ID = some_uuid, Name = []\<rparr>]"
  by (simp add: POST_products_def handle_def CreateProductHandler_Handle_def post_ctx_def
      post_ctx_undecoded_def widget_store_def binder_order_def StatusOK_def StatusCreated_def
      StatusBadRequest_def)

section \<open>The trip predicate\<close>

text \<open>
  The float64 quotient of two uint32 counters is compared with the float64 nearest to 0.6.
  The lemmas below show that rounding does not change the outcome of the comparison: the
  quotient rounds to a value in its own binade, and a quotient below 3/5 with a
  denominator below \<open>2 ^ 32\<close> is too far from 3/5 to round up to it.
\<close>

lemma round_half_even_bounds:
  "x - 1 / 2 \<le> of_int (round_half_even x) \<and> of_int (round_half_even x) \<le> x + 1 / 2"
proof -
  define f where "f = \<lfloor>x\<rfloor>"
  have "of_int f \<le> x" "x < of_int f + 1"
    unfolding f_def by linarith+
  then show ?thesis
    unfolding round_half_even_def Let_def f_def [symmetric] by auto
qed

lemma quotient_of_pos:
  assumes "0 < q" "quotient_of q = (n, d)"
  shows "0 < n \<and> 0 < d \<and> q = of_int n / of_int d"
proof -
  have d: "0 < d" using assms(2) by (rule quotient_of_denom_pos)
  have q: "q = of_int n / of_int d" using assms(2) by (rule quotient_of_div)
  have "0 < n" using assms(1) d unfolding q by (simp add: zero_less_divide_iff)
  with d q show ?thesis by simp
qed

lemma ilog2_bounds:
  assumes "0 < q"
  shows "2 powi ilog2 q \<le> q \<and> q < 2 powi (ilog2 q + 1)"
proof -
  obtain n d where nd: "quotient_of q = (n, d)" by (cases "quotient_of q")
  from quotient_of_pos [OF assms nd] have n: "0 < n" and d: "0 < d"
    and q: "q = of_int n / of_int d" by simp_all
  define bn where "bn = floorlog 2 (nat n)"
  define bd where "bd = floorlog 2 (nat d)"
  have bn: "2 ^ (bn - 1) \<le> nat n" "nat n < 2 ^ bn"
    using floorlog_bounds [of "nat n" 2] n by (simp_all add: bn_def)
  have bd: "2 ^ (bd - 1) \<le> nat d" "nat d < 2 ^ bd"
    using floorlog_bounds [of "nat d" 2] d by (simp_all add: bd_def)
  have bn0: "0 < bn" using n floorlog_eq_zero_iff [of 2 "nat n"] by (simp add: bn_def)
  have bd0: "0 < bd" using d floorlog_eq_zero_iff [of 2 "nat d"] by (simp add: bd_def)
  have "(of_nat (2 ^ (bn - 1)) :: rat) \<le> of_nat (nat n)" "(of_nat (nat n) :: rat) < of_nat (2 ^ bn)"
    using bn by (simp_all only: of_nat_le_iff of_nat_less_iff)
  then have rn: "(2::rat) ^ (bn - 1) \<le> of_int n" "(of_int n :: rat) < 2 ^ bn"
    using n by simp_all
  have "(of_nat (2 ^ (bd - 1)) :: rat) \<le> of_nat (nat d)" "(of_nat (nat d) :: rat) < of_nat (2 ^ bd)"
    using bd by (simp_all only: of_nat_le_iff of_nat_less_iff)
  then have rd: "(2::rat) ^ (bd - 1) \<le> of_int d" "(of_int d :: rat) < 2 ^ bd"
    using d by simp_all
  define e0 where "e0 = int bn - int bd"
  have dpos: "(0::rat) < of_int d" using d by simp
  have e1: "(2::rat) powi (e0 + 1) = 2 ^ bn / 2 ^ (bd - 1)"
  proof -
    have "e0 + 1 = int bn - int (bd - 1)" using bd0 by (simp add: e0_def)
    then show ?thesis by (simp add: power_int_diff)
  qed
  have e2: "(2::rat) powi (e0 - 1) = 2 ^ (bn - 1) / 2 ^ bd"
  proof -
    have "e0 - 1 = int (bn - 1) - int bd" using bn0 by (simp add: e0_def)
    then show ?thesis by (simp add: power_int_diff)
  qed
  have up: "q < 2 powi (e0 + 1)"
  proof -
    have "of_int n / of_int d < (2::rat) ^ bn / of_int d"
      using rn(2) dpos by (simp add: divide_strict_right_mono)
    also have "\<dots> \<le> 2 ^ bn / 2 ^ (bd - 1)"
      using rd(1) by (simp add: frac_le)
    finally show ?thesis by (simp add: q e1)
  qed
  have lo: "2 powi (e0 - 1) \<le> q"
  proof -
    have "(2::rat) ^ (bn - 1) / 2 ^ bd \<le> 2 ^ (bn - 1) / of_int d"
      using rd(2) dpos by (simp add: frac_le)
    also have "\<dots> \<le> of_int n / of_int d"
      using rn(1) dpos by (simp add: divide_right_mono)
    finally show ?thesis by (simp add: q e2)
  qed
  have "ilog2 q = (if 2 powi e0 \<le> q then e0 else e0 - 1)"
    by (simp add: ilog2_def nd e0_def bn_def bd_def)
  then show ?thesis
    using up lo by (auto simp: not_le)
qed


lemma float64_round_normal:
  assumes q: "0 < q" and lo: "- 1022 \<le> ilog2 q" and hi: "ilog2 q < 1023"
  defines "m \<equiv> round_half_even (q * 2 powi (52 - ilog2 q))"
  shows "float64_round q = Finite (of_int m * 2 powi (ilog2 q - 52))"
    and "2 powi ilog2 q \<le> of_int m * (2::rat) powi (ilog2 q - 52)"
    and "of_int m * (2::rat) powi (ilog2 q - 52) \<le> 2 powi (ilog2 q + 1)"
proof -
  define e where "e = ilog2 q"
  define y where "y = q * 2 powi (52 - e)"
  have m: "m = round_half_even y" by (simp add: m_def y_def e_def)
  have p: "(0::rat) < 2 powi (52 - e)" by simp
  have b: "2 powi e \<le> q" "q < 2 powi (e + 1)"
    using ilog2_bounds [OF q] by (simp_all add: e_def)
  have "2 powi e * 2 powi (52 - e) \<le> y"
    unfolding y_def using b(1) p by (simp add: mult_right_mono)
  then have y1: "2 ^ 52 \<le> y" by (simp flip: power_int_add)
  have "y < 2 powi (e + 1) * 2 powi (52 - e)"
    unfolding y_def using b(2) p by (simp add: mult_strict_right_mono)
  then have y2: "y < 2 ^ 53" by (simp flip: power_int_add)
  have r: "y - 1 / 2 \<le> of_int m" "of_int m \<le> y + 1 / 2"
    using round_half_even_bounds [of y] by (simp_all add: m)
  have "(2::rat) ^ 52 - 1 < of_int m" using y1 r(1) by linarith
  then have "(of_int (2 ^ 52 - 1) :: rat) < of_int m" by simp
  then have "(2::int) ^ 52 - 1 < m" by (simp only: of_int_less_iff)
  then have m1: "2 ^ 52 \<le> m" by simp
  have "of_int m < (2::rat) ^ 53 + 1" using y2 r(2) by linarith
  then have "(of_int m :: rat) < of_int (2 ^ 53 + 1)" by simp
  then have "m < (2::int) ^ 53 + 1" by (simp only: of_int_less_iff)
  then have m2: "m \<le> 2 ^ 53" by simp
  have "(of_int m :: rat) \<le> of_int (2 ^ 53)" using m2 by (simp only: of_int_le_iff)
  then have m2r: "(of_int m :: rat) \<le> 2 powi 53" by simp
  have pe: "(0::rat) < 2 powi (e - 52)" by simp
  have "of_int m * 2 powi (e - 52) \<le> (2::rat) powi 53 * 2 powi (e - 52)"
    using m2r pe by (simp only: mult_right_mono less_imp_le)
  also have "\<dots> = 2 powi (e + 1)"
  proof -
    have "(2::rat) powi (53 + (e - 52)) = 2 powi 53 * 2 powi (e - 52)"
      by (rule power_int_add) simp
    moreover have "53 + (e - 52) = e + 1" by simp
    ultimately show ?thesis by (simp only:)
  qed
  finally have up: "of_int m * (2::rat) powi (e - 52) \<le> 2 powi (e + 1)" .
  then show "of_int m * (2::rat) powi (ilog2 q - 52) \<le> 2 powi (ilog2 q + 1)"
    by (simp add: e_def)
  have "(of_int (2 ^ 52) :: rat) \<le> of_int m" using m1 by (simp only: of_int_le_iff)
  then have m1r: "(2::rat) powi 52 \<le> of_int m" by simp
  have "(2::rat) powi (52 + (e - 52)) = 2 powi 52 * 2 powi (e - 52)"
    by (rule power_int_add) simp
  moreover have "52 + (e - 52) = e" by simp
  ultimately have "(2::rat) powi e = 2 powi 52 * 2 powi (e - 52)" by (simp only:)
  also have "\<dots> \<le> of_int m * 2 powi (e - 52)"
    using m1r pe by (simp only: mult_right_mono less_imp_le)
  finally show "2 powi ilog2 q \<le> of_int m * (2::rat) powi (ilog2 q - 52)"
    by (simp add: e_def)
  note up
  also have "(2::rat) powi (e + 1) < 2 powi 1024"
    using hi by (intro power_int_strict_increasing) (simp_all add: e_def)
  finally have fin: "\<not> 2 powi 1024 \<le> of_int m * (2::rat) powi (e - 52)" by simp
  have mx: "max (ilog2 q) (- 1022) = e" using lo by (simp add: e_def)
  show "float64_round q = Finite (of_int m * 2 powi (ilog2 q - 52))"
    using q fin unfolding float64_round_def mx Let_def m y_def by (simp add: e_def)
qed


lemma float64_round_six_tenths:
  "float64_round (6 / 10) = Finite (5404319552844595 / 2 ^ 53)"
  by code_simp

lemma ratio_ge_threshold:
  fixes a b :: nat
  assumes b0: "0 < b" and b32: "b < 2 ^ 32" and a32: "a < 2 ^ 32"
  shows "float64_ge (float64_div (Finite (of_nat a)) (Finite (of_nat b))) (float64_round (6 / 10))
           \<longleftrightarrow> 3 * b \<le> 5 * a"
proof (cases "a = 0")
  case True
  have "float64_round 0 = Finite 0" by (simp add: float64_round_def)
  then show ?thesis
    unfolding float64_round_six_tenths using True b0 by simp
next
  case False
  define q :: rat where "q = of_nat a / of_nat b"
  define e where "e = ilog2 q"
  define m where "m = round_half_even (q * 2 powi (52 - e))"
  define C :: int where "C = 5404319552844595"
  have "1 \<le> a" "1 \<le> b" using False b0 by simp_all
  then have "(of_nat 1 :: rat) \<le> of_nat a" "(of_nat 1 :: rat) \<le> of_nat b"
    by (simp_all only: of_nat_le_iff)
  moreover have "(of_nat a :: rat) < of_nat (2 ^ 32)" "(of_nat b :: rat) < of_nat (2 ^ 32)"
    using a32 b32 by (simp_all only: of_nat_less_iff)
  ultimately have ar: "(1::rat) \<le> of_nat a" "(of_nat a :: rat) < 2 ^ 32"
    and br: "(1::rat) \<le> of_nat b" "(of_nat b :: rat) < 2 ^ 32"
    by simp_all
  have q0: "0 < q" using ar br by (simp add: q_def)
  have qlo: "1 / 2 ^ 32 < q"
    using ar br unfolding q_def by (simp add: field_simps)
  have qhi: "q < 2 ^ 32"
    using ar br unfolding q_def by (simp add: field_simps) 
  have b: "2 powi e \<le> q" "q < 2 powi (e + 1)"
    using ilog2_bounds [OF q0] by (simp_all add: e_def)
  have elo: "- 32 \<le> e"
  proof (rule ccontr)
    assume "\<not> - 32 \<le> e"
    then have "e + 1 \<le> - 32" by simp
    then have "(2::rat) powi (e + 1) \<le> 2 powi (- 32)"
      by (intro power_int_increasing) simp_all
    with b(2) qlo show False by (simp add: power_int_minus_divide)
  qed
  have ehi: "e \<le> 31"
  proof (rule ccontr)
    assume "\<not> e \<le> 31"
    then have "32 \<le> e" by simp
    then have "(2::rat) powi 32 \<le> 2 powi e"
      by (intro power_int_increasing) simp_all
    with b(1) qhi show False by simp
  qed
  have rnd: "float64_round q = Finite (of_int m * 2 powi (e - 52))"
    and r1: "2 powi e \<le> of_int m * (2::rat) powi (e - 52)"
    and r2: "of_int m * (2::rat) powi (e - 52) \<le> 2 powi (e + 1)"
    using float64_round_normal [OF q0] elo ehi by (simp_all add: e_def m_def)
  have div: "float64_div (Finite (of_nat a)) (Finite (of_nat b)) = Finite (of_int m * 2 powi (e - 52))"
    using b0 rnd by (simp add: q_def)
  have ge: "float64_ge (float64_div (Finite (of_nat a)) (Finite (of_nat b))) (float64_round (6 / 10))
      \<longleftrightarrow> of_int C / 2 ^ 53 \<le> of_int m * (2::rat) powi (e - 52)"
    unfolding float64_round_six_tenths div by (simp add: C_def)
  have A: "3 / 5 \<le> q" if "3 * b \<le> 5 * a"
  proof -
    have "(of_nat (3 * b) :: rat) \<le> of_nat (5 * a)" using that by (simp only: of_nat_le_iff)
    then show ?thesis using br by (simp add: q_def field_simps)
  qed
  have B: "q \<le> 3 / 5 - 1 / (5 * of_nat b)" if "\<not> 3 * b \<le> 5 * a"
  proof -
    have "5 * a + 1 \<le> 3 * b" using that by simp
    then have "(of_nat (5 * a + 1) :: rat) \<le> of_nat (3 * b)" by (simp only: of_nat_le_iff)
    then show ?thesis using br by (simp add: q_def field_simps)
  qed
  consider "e = - 1" | "0 \<le> e" | "e \<le> - 2" by linarith
  then show ?thesis
  proof cases
    case 1
    have r: "of_int m * (2::rat) powi (e - 52) = of_int m / 9007199254740992"
      using 1 by (simp add: power_int_minus_divide)
    have "round_half_even (q * 9007199254740992) = m"
      using 1 by (simp add: m_def)
    then have rb: "q * 9007199254740992 - 1 / 2 \<le> of_int m"
      "of_int m \<le> q * 9007199254740992 + 1 / 2"
      using round_half_even_bounds [of "q * 9007199254740992"] by simp_all
    have iff: "of_int C / 2 ^ 53 \<le> of_int m * (2::rat) powi (e - 52) \<longleftrightarrow> C \<le> m"
      unfolding r by (simp add: divide_le_cancel)
    show ?thesis
    proof (cases "3 * b \<le> 5 * a")
      case True
      from A [OF True] have "(of_int (C - 1) :: rat) < of_int m"
        using rb(1) by (simp add: C_def)
      then have "C - 1 < m" by (simp only: of_int_less_iff)
      then show ?thesis using True ge iff by simp
    next
      case False
      have "1 / (5 * 2 ^ 32) < 1 / (5 * of_nat b :: rat)"
        using br by (simp add: field_simps)
      with B [OF False] have "q < 3 / 5 - 1 / (5 * 2 ^ 32)" by linarith
      then have "(of_int m :: rat) < of_int C"
        using rb(2) by (simp add: C_def)
      then have "m < C" by (simp only: of_int_less_iff)
      then show ?thesis using False ge iff by simp
    qed
  next
    case 2
    have "(2::rat) powi 0 \<le> 2 powi e"
      using 2 by (intro power_int_increasing) simp_all
    then have q1: "1 \<le> q" using b(1) by simp
    then have "(of_nat b :: rat) \<le> of_nat a" using br by (simp add: q_def field_simps)
    then have "b \<le> a" by (simp only: of_nat_le_iff)
    then have t: "3 * b \<le> 5 * a" by simp
    have "of_int C / 2 ^ 53 \<le> (1::rat)" by (simp add: C_def)
    also have "\<dots> \<le> 2 powi e" using \<open>2 powi 0 \<le> 2 powi e\<close> by simp
    also note r1
    finally show ?thesis using t ge by simp
  next
    case 3
    have "(2::rat) powi (e + 1) \<le> 2 powi (- 1)"
      using 3 by (intro power_int_increasing) simp_all
    then have h: "(2::rat) powi (e + 1) \<le> 1 / 2" by simp
    then have "q < 1 / 2" using b(2) by simp
    then have "2 * (of_nat a :: rat) < of_nat b" using br by (simp add: q_def field_simps)
    then have "(of_nat (2 * a) :: rat) < of_nat b" by simp
    then have "2 * a < b" by (simp only: of_nat_less_iff)
    then have t: "\<not> 3 * b \<le> 5 * a" by simp
    have "of_int m * (2::rat) powi (e - 52) \<le> 1 / 2" using r2 h by simp
    also have "\<dots> < of_int C / 2 ^ 53" by (simp add: C_def)
    finally show ?thesis using t ge by simp
  qed
qed


lemma ReadyToTrip_iff:
  "ReadyToTrip c \<longleftrightarrow>
     3 \<le> unat (Requests c) \<and> 3 * unat (Requests c) \<le> 5 * unat (TotalFailures c)"
proof (cases "3 \<le> Requests c")
  case True
  then have r: "3 \<le> unat (Requests c)" by (simp add: word_le_nat_alt)
  have "unat (Requests c) < 2 ^ 32" "unat (TotalFailures c) < 2 ^ 32"
    using unsigned_less [of "Requests c", where ?'a = nat]
      unsigned_less [of "TotalFailures c", where ?'a = nat] by simp_all
  with r show ?thesis
    using True ratio_ge_threshold [where b = "unat (Requests c)" and a = "unat (TotalFailures c)"]
    by (simp add: ReadyToTrip_def float64_of_uint32_def)
next
  case False
  then have "\<not> 3 \<le> unat (Requests c)" by (simp add: word_le_nat_alt)
  with False show ?thesis by (simp add: ReadyToTrip_def)
qed

text \<open>
  Claim C9. \<^verbatim>\<open>ReadyToTrip\<close> is defined on every counts value and is true exactly when
  \<open>Requests\<close> is at least 3 and \<open>TotalFailures / Requests\<close> is at least 0.6. The float64
  division does not fail: with both counters zero it yields NaN, and the predicate is
  false; so it is whenever fewer than 3 requests were counted.
\<close>

theorem ReadyToTrip_exact:
  "(ReadyToTrip c \<longleftrightarrow>
      3 \<le> unat (Requests c) \<and>
      (6 / 10 :: rat) \<le> of_nat (unat (TotalFailures c)) / of_nat (unat (Requests c))) \<and>
   float64_div (float64_of_uint32 0) (float64_of_uint32 0) = NaN \<and>
   (Requests c = 0 \<longrightarrow> \<not> ReadyToTrip c) \<and>
   (unat (Requests c) < 3 \<longrightarrow> \<not> ReadyToTrip c)"
proof -
  define r where "r = unat (Requests c)"
  define f where "f = unat (TotalFailures c)"
  have "(6 / 10 :: rat) \<le> of_nat f / of_nat r \<longleftrightarrow> 3 * r \<le> 5 * f" if "3 \<le> r"
  proof -
    have "(0::rat) < of_nat r" using that by simp
    then have "(6 / 10 :: rat) \<le> of_nat f / of_nat r \<longleftrightarrow> (of_nat (3 * r) :: rat) \<le> of_nat (5 * f)"
      by (simp add: field_simps)
    then show ?thesis by (simp only: of_nat_le_iff)
  qed
  then have 1: "ReadyToTrip c \<longleftrightarrow> 3 \<le> r \<and> (6 / 10 :: rat) \<le> of_nat f / of_nat r"
    unfolding ReadyToTrip_iff r_def [symmetric] f_def [symmetric] by blast
  have 2: "float64_div (float64_of_uint32 0) (float64_of_uint32 0) = NaN"
    by (simp add: float64_of_uint32_def)
  have 3: "\<not> ReadyToTrip c" if "r < 3"
    using that by (simp add: ReadyToTrip_iff r_def)
  have 4: "\<not> ReadyToTrip c" if "Requests c = 0"
    using that by (simp add: ReadyToTrip_iff)
  show ?thesis using 1 2 3 4 unfolding r_def f_def by blast
qed

text \<open>The theorem at no request, at two failures of two and at two failures of three.\<close>

theorem ReadyToTrip_exact_witness:
  "\<not> ReadyToTrip clear \<and>
   \<not> ReadyToTrip \<lparr>Requests = 2, TotalFailures = 2, ConsecutiveSuccesses = 0,
                   ConsecutiveFailures = 2\<rparr> \<and>
   ReadyToTrip \<lparr>Requests = 3, TotalFailures = 2, ConsecutiveSuccesses = 1,
                 ConsecutiveFailures = 0\<rparr>"
  using ReadyToTrip_exact [of clear]
    ReadyToTrip_exact [of "\<lparr>Requests = 2, TotalFailures = 2, ConsecutiveSuccesses = 0,
      ConsecutiveFailures = 2\<rparr>"]
    ReadyToTrip_exact [of "\<lparr>Requests = 3, TotalFailures = 2, ConsecutiveSuccesses = 1,
      ConsecutiveFailures = 0\<rparr>"]
  by (simp add: clear_def)

section \<open>The breaker opens at the threshold and rejects while open\<close>

lemma Execute_all_append:
  "Execute_all cb (xs @ ys) =
     (let (o1, cb1) = Execute_all cb xs; (o2, cb2) = Execute_all cb1 ys in (o1 @ o2, cb2))"
  by (induction xs arbitrary: cb) (auto split: prod.splits)

lemma Execute_open:
  assumes "state cb = Open" "now < openedAt cb + Timeout"
  shows "CircuitBreaker_Execute cb now req = ((Inl BreakerOpenError, False), cb)"
  using assms by (simp add: CircuitBreaker_Execute_def admit_def currentState_def)

lemma Execute_all_open:
  assumes "state cb = Open" "\<forall>(now, req) \<in> set later. now < openedAt cb + Timeout"
  shows "Execute_all cb later = (map (\<lambda>_. (Inl BreakerOpenError, False)) later, cb)"
  using assms by (induction later) (auto simp: Execute_open)

lemma Execute_closed:
  assumes "state cb = Closed" "now < windowStart cb + Interval"
  shows "CircuitBreaker_Execute cb now req =
    ((req, True),
     (let c = tally (counts cb) [(now, req)]
      in if ReadyToTrip c then cb\<lparr>state := Open, counts := clear, openedAt := now\<rparr>
         else cb\<lparr>counts := c\<rparr>))"
  using assms
  by (simp add: CircuitBreaker_Execute_def admit_def currentState_def record_result_def Let_def)

lemma tally_append: "tally c (xs @ ys) = tally (tally c xs) ys"
  by (induction xs arbitrary: c) auto

lemma Execute_all_closed:
  assumes "state cb = Closed" "\<forall>(now, req) \<in> set calls. now < windowStart cb + Interval"
    and "\<forall>n. 0 < n \<and> n \<le> length calls \<longrightarrow> \<not> ReadyToTrip (tally (counts cb) (take n calls))"
  shows "Execute_all cb calls =
    (map (\<lambda>(now, req). (req, True)) calls, cb\<lparr>counts := tally (counts cb) calls\<rparr>)"
  using assms
proof (induction calls arbitrary: cb)
  case Nil
  then show ?case by simp
next
  case (Cons x calls)
  obtain now req where x: "x = (now, req)" by (cases x)
  define c where "c = tally (counts cb) [(now, req)]"
  have "\<not> ReadyToTrip (tally (counts cb) (take 1 (x # calls)))"
    using Cons.prems(3) [rule_format, of 1] by simp
  then have nt: "\<not> ReadyToTrip c" by (simp add: x c_def)
  have step: "CircuitBreaker_Execute cb now req = ((req, True), cb\<lparr>counts := c\<rparr>)"
    using Execute_closed [of cb now req] Cons.prems(1,2) nt by (simp add: x c_def Let_def)
  have rest: "\<forall>n. 0 < n \<and> n \<le> length calls \<longrightarrow>
      \<not> ReadyToTrip (tally (counts (cb\<lparr>counts := c\<rparr>)) (take n calls))"
  proof (intro allI impI)
    fix n assume "0 < n \<and> n \<le> length calls"
    then have "\<not> ReadyToTrip (tally (counts cb) (take (Suc n) (x # calls)))"
      using Cons.prems(3) [rule_format, of "Suc n"] by simp
    then show "\<not> ReadyToTrip (tally (counts (cb\<lparr>counts := c\<rparr>)) (take n calls))"
      by (simp add: x c_def)
  qed
  have "Execute_all (cb\<lparr>counts := c\<rparr>) calls =
      (map (\<lambda>(now, req). (req, True)) calls,
       cb\<lparr>counts := c\<rparr>\<lparr>counts := tally (counts (cb\<lparr>counts := c\<rparr>)) calls\<rparr>)"
    using Cons.prems(1,2) rest by (intro Cons.IH) auto
  then show ?case using step by (simp add: x c_def)
qed

lemma Requests_tally: "Requests (tally c calls) = Requests c + of_nat (length calls)"
  by (induction calls arbitrary: c) (auto simp: onRequest_def onSuccess_def onFailure_def)

lemma TotalFailures_tally: "TotalFailures (tally c calls) = TotalFailures c + of_nat (failures calls)"
  by (induction calls arbitrary: c)
    (auto simp: onRequest_def onSuccess_def onFailure_def failures_def)

lemma failures_le: "failures calls \<le> length calls"
  by (simp add: failures_def)


lemma unat_of_nat_32: "n < 2 ^ 32 \<Longrightarrow> unat (of_nat n :: 32 word) = n"
  by (simp add: unat_of_nat)

lemma ReadyToTrip_tally:
  assumes "length calls < 2 ^ 32"
  shows "ReadyToTrip (tally clear calls) \<longleftrightarrow>
    3 \<le> length calls \<and> (6 / 10 :: rat) \<le> of_nat (failures calls) / of_nat (length calls)"
proof -
  have f: "failures calls < 2 ^ 32"
    using failures_le [of calls] assms by simp
  have r: "unat (Requests (tally clear calls)) = length calls"
    using assms by (simp add: Requests_tally clear_def unat_of_nat_32)
  have t: "unat (TotalFailures (tally clear calls)) = failures calls"
    using f by (simp add: TotalFailures_tally clear_def unat_of_nat_32)
  have "(6 / 10 :: rat) \<le> of_nat (failures calls) / of_nat (length calls) \<longleftrightarrow>
      3 * length calls \<le> 5 * failures calls" if "3 \<le> length calls"
  proof -
    have "0 < length calls" using that by linarith
    then have "(0::rat) < of_nat (length calls)" by (simp only: of_nat_0_less_iff)
    then have "(6 / 10 :: rat) \<le> of_nat (failures calls) / of_nat (length calls) \<longleftrightarrow>
        (of_nat (3 * length calls) :: rat) \<le> of_nat (5 * failures calls)"
      by (simp add: field_simps)
    then show ?thesis by (simp only: of_nat_le_iff)
  qed
  then show ?thesis unfolding ReadyToTrip_iff r t by blast
qed

text \<open>
  Claim C1. A breaker starts a window closed with counts at zero, and \<open>N \<ge> 3\<close> calls go
  through it one after the other within the window. Their failure ratio is at least 0.6,
  and no shorter run of three or more of them reached 0.6, so that the last call is the
  one that crosses the threshold. Then every one of the calls reaches the dependency, the
  breaker is still \<open>Closed\<close> before the last call and \<open>Open\<close> after it, with \<open>openedAt\<close>
  the time of that call. Every later call made before \<open>Timeout\<close> (10 seconds) has elapsed
  since then fails with \<open>BreakerOpenError\<close>, the thunk is not called, and the breaker
  stays as it is.
\<close>

theorem breaker_opens_at_threshold:
  fixes calls later :: "(nat \<times> (error + 'a)) list"
  assumes closed: "state cb = Closed" and zero: "counts cb = clear"
    and window: "\<forall>(now, req) \<in> set calls. now < windowStart cb + Interval"
    and N: "3 \<le> length calls" and bound: "length calls < 2 ^ 32"
    and ratio: "(6 / 10 :: rat) \<le> of_nat (failures calls) / of_nat (length calls)"
    and first: "\<forall>n. 3 \<le> n \<and> n < length calls \<longrightarrow>
        \<not> (6 / 10 :: rat) \<le> of_nat (failures (take n calls)) / of_nat n"
    and later: "\<forall>(now, req) \<in> set later. now < fst (last calls) + Timeout"
  shows "fst (Execute_all cb (calls @ later)) =
           map (\<lambda>(now, req). (req, True)) calls @
           map (\<lambda>_. (Inl BreakerOpenError, False)) later \<and>
         state (snd (Execute_all cb (butlast calls))) = Closed \<and>
         state (snd (Execute_all cb calls)) = Open \<and>
         openedAt (snd (Execute_all cb calls)) = fst (last calls) \<and>
         snd (Execute_all cb (calls @ later)) = snd (Execute_all cb calls)"
proof -
  define pre where "pre = butlast calls"
  obtain now req where l: "last calls = (now, req)" by (cases "last calls")
  have ne: "calls \<noteq> []" using N by auto
  then have calls: "calls = pre @ [(now, req)]"
    unfolding pre_def l [symmetric] by simp
  have lp: "length pre < length calls" by (simp add: calls)
  have no_trip: "\<not> ReadyToTrip (tally (counts cb) (take n pre))" if "0 < n \<and> n \<le> length pre" for n
  proof -
    have tk: "take n pre = take n calls" using that by (simp add: calls)
    have len: "length (take n calls) = n" using that lp by simp
    have nr: "\<not> (3 \<le> n \<and> (6 / 10 :: rat) \<le> of_nat (failures (take n calls)) / of_nat n)"
      using first that lp by auto
    have lt: "length (take n calls) < 2 ^ 32" unfolding len using that lp bound by linarith
    show ?thesis
      unfolding zero tk ReadyToTrip_tally [OF lt] len using nr .
  qed
  have wp: "\<forall>(now, req) \<in> set pre. now < windowStart cb + Interval"
    using window by (auto simp: calls)
  have run_pre: "Execute_all cb pre =
      (map (\<lambda>(now, req). (req, True)) pre, cb\<lparr>counts := tally clear pre\<rparr>)"
    using Execute_all_closed [OF closed wp] no_trip by (simp add: zero)
  define cb1 where "cb1 = cb\<lparr>counts := tally clear pre\<rparr>"
  have trip: "ReadyToTrip (tally (counts cb1) [(now, req)])"
    using ReadyToTrip_tally [OF bound] N ratio
    by (simp add: cb1_def calls tally_append)
  have "now < windowStart cb1 + Interval" using window by (simp add: calls cb1_def)
  then have step: "CircuitBreaker_Execute cb1 now req =
      ((req, True), cb1\<lparr>state := Open, counts := clear, openedAt := now\<rparr>)"
    using Execute_closed [of cb1 now req] closed trip by (simp add: cb1_def Let_def)
  define cb2 where "cb2 = cb1\<lparr>state := Open, counts := clear, openedAt := now\<rparr>"
  have run_calls: "Execute_all cb calls = (map (\<lambda>(now, req). (req, True)) calls, cb2)"
    by (simp add: calls Execute_all_append run_pre step cb1_def [symmetric] cb2_def)
  have "\<forall>(t, r) \<in> set later. t < openedAt cb2 + Timeout"
    using later by (simp add: l cb2_def)
  then have run_later: "Execute_all cb2 later =
      (map (\<lambda>_. (Inl BreakerOpenError, False)) later, cb2)"
    by (intro Execute_all_open) (simp_all add: cb2_def)
  have run_all: "Execute_all cb (calls @ later) =
      (map (\<lambda>(now, req). (req, True)) calls @ map (\<lambda>_. (Inl BreakerOpenError, False)) later,
       cb2)"
    by (simp add: Execute_all_append [of cb calls later] run_calls run_later)
  show ?thesis
    using run_all run_calls run_pre closed
    by (simp add: pre_def [symmetric] cb2_def cb1_def l)
qed


text \<open>
  The theorem at a success followed by two failures, with two calls four and five seconds
  later.
\<close>

theorem breaker_opens_at_threshold_witness:
  "fst (Execute_all (NewCircuitBreaker 0)
      ([(Second, Inr ''ok''), (2 * Second, Inl (ErrorNew ''giving up'')),
        (3 * Second, Inl (ErrorNew ''giving up''))] @
       [(7 * Second, Inr ''ok''), (8 * Second, Inr ''ok'')])) =
     [(Inr ''ok'', True), (Inl (ErrorNew ''giving up''), True),
      (Inl (ErrorNew ''giving up''), True),
      (Inl BreakerOpenError, False), (Inl BreakerOpenError, False)] \<and>
   state (snd (Execute_all (NewCircuitBreaker 0)
      [(Second, Inr ''ok''), (2 * Second, Inl (ErrorNew ''giving up'')),
       (3 * Second, Inl (ErrorNew ''giving up''))])) = Open \<and>
   openedAt (snd (Execute_all (NewCircuitBreaker 0)
      [(Second, Inr ''ok''), (2 * Second, Inl (ErrorNew ''giving up'')),
       (3 * Second, Inl (ErrorNew ''giving up''))])) = 3 * Second"
proof -
  let ?calls = "[(Second, Inr ''ok''), (2 * Second, Inl (ErrorNew ''giving up'')),
    (3 * Second, Inl (ErrorNew ''giving up''))] :: (nat \<times> (error + string)) list"
  let ?later = "[(7 * Second, Inr ''ok''), (8 * Second, Inr ''ok'')]
    :: (nat \<times> (error + string)) list"
  have closed: "state (NewCircuitBreaker 0) = Closed"
    and zero: "counts (NewCircuitBreaker 0) = clear"
    by (simp_all add: NewCircuitBreaker_def)
  have window: "\<forall>(now, req) \<in> set ?calls. now < windowStart (NewCircuitBreaker 0) + Interval"
    by (simp add: NewCircuitBreaker_def Interval_def Second_def)
  have N: "3 \<le> length ?calls" and bound: "length ?calls < 2 ^ 32" by simp_all
  have ratio: "(6 / 10 :: rat) \<le> of_nat (failures ?calls) / of_nat (length ?calls)"
    by (simp add: failures_def)
  have first: "\<forall>n. 3 \<le> n \<and> n < length ?calls \<longrightarrow>
      \<not> (6 / 10 :: rat) \<le> of_nat (failures (take n ?calls)) / of_nat n"
    by simp
  have later: "\<forall>(now, req) \<in> set ?later. now < fst (last ?calls) + Timeout"
    by (simp add: Timeout_def Second_def)
  from breaker_opens_at_threshold [OF closed zero window N bound ratio first later]
  show ?thesis by simp
qed

section \<open>Probes in the half-open state\<close>

lemma three_le_one_word: "\<not> (3 :: 32 word) \<le> 1"
  by (simp add: word_le_nat_alt)

lemma MaxRequests_le_of_nat:
  "k \<le> 3 \<Longrightarrow> MaxRequests \<le> (of_nat k :: 32 word) \<longleftrightarrow> k = 3"
proof -
  assume "k \<le> 3"
  then consider "k = 0" | "k = 1" | "k = 2" | "k = 3" by linarith
  then show ?thesis by cases (simp_all add: MaxRequests_def three_le_one_word)
qed

lemma admit_half_open:
  assumes "state cb = HalfOpen" "Requests (counts cb) = of_nat k" "k \<le> 3"
  shows "admit cb now =
    (if k = 3 then (Some BreakerOpenError, cb)
     else (None, cb\<lparr>counts := onRequest (counts cb)\<rparr>))"
  using assms MaxRequests_le_of_nat [of k]
  by (simp add: admit_def currentState_def)

lemma admit_all_half_open:
  assumes "state cb = HalfOpen" "Requests (counts cb) = of_nat k" "k \<le> 3"
  shows "fst (admit_all cb ts) =
    replicate (min (3 - k) (length ts)) None @
    replicate (length ts - (3 - k)) (Some BreakerOpenError)"
  using assms
proof (induction ts arbitrary: cb k)
  case Nil
  then show ?case by simp
next
  case (Cons now ts)
  show ?case
  proof (cases "k = 3")
    case True
    have "fst (admit_all cb ts) =
        replicate (min (3 - k) (length ts)) None @
        replicate (length ts - (3 - k)) (Some BreakerOpenError)"
      using Cons.prems by (intro Cons.IH)
    then show ?thesis
      using True admit_half_open [OF Cons.prems, of now]
      by (simp add: split_beta)
  next
    case False
    define cb1 where "cb1 = cb\<lparr>counts := onRequest (counts cb)\<rparr>"
    have k: "Suc k \<le> 3" using False Cons.prems(3) by simp
    have "fst (admit_all cb1 ts) =
        replicate (min (3 - Suc k) (length ts)) None @
        replicate (length ts - (3 - Suc k)) (Some BreakerOpenError)"
      using Cons.prems k by (intro Cons.IH) (simp_all add: cb1_def onRequest_def)
    moreover have "min (3 - k) (Suc (length ts)) = Suc (min (3 - Suc k) (length ts))"
      using k by simp
    moreover have "Suc (length ts) - (3 - k) = length ts - (3 - Suc k)"
      using k by simp
    ultimately show ?thesis
      using False admit_half_open [OF Cons.prems, of now]
      by (simp add: split_beta cb1_def)
  qed
qed

text \<open>
  Claim C2. In \<open>HalfOpen\<close> the breaker lets at most \<open>MaxRequests = 3\<close> probes through:
  of the calls that ask for admission before any result is in, the first three pass and the
  others are rejected. A single failed probe puts the breaker back to \<open>Open\<close> at once and
  sets \<open>openedAt\<close> to the time of the failure. Once \<open>Timeout\<close> has elapsed in \<open>Open\<close> the
  next call is let through as a probe; two successful probes leave the breaker
  \<open>HalfOpen\<close>, the third closes it with all counts at zero, and a failure in its place
  reopens it.
\<close>

theorem half_open_probes:
  fixes err :: error and v1 v2 v3 :: 'a
  shows
   "(state cb = HalfOpen \<and> counts cb = clear \<longrightarrow>
       fst (admit_all cb ts) =
         replicate (min 3 (length ts)) None @
         replicate (length ts - 3) (Some BreakerOpenError)) \<and>
    (state cb = HalfOpen \<longrightarrow>
       record_result cb now False = cb\<lparr>state := Open, counts := clear, openedAt := now\<rparr>) \<and>
    (state cb = HalfOpen \<and> Requests (counts cb) < MaxRequests \<longrightarrow>
       CircuitBreaker_Execute cb now (Inl err :: error + 'a) =
         ((Inl err, True), cb\<lparr>state := Open, counts := clear, openedAt := now\<rparr>)) \<and>
    (state cb = Open \<and> openedAt cb + Timeout \<le> t1 \<longrightarrow>
       state (snd (Execute_all cb [(t1, Inr v1 :: error + 'a), (t2, Inr v2)])) = HalfOpen \<and>
       Execute_all cb [(t1, Inr v1), (t2, Inr v2), (t3, Inr v3)] =
         ([(Inr v1, True), (Inr v2, True), (Inr v3, True)],
          cb\<lparr>state := Closed, counts := clear, windowStart := t3\<rparr>) \<and>
       Execute_all cb [(t1, Inr v1), (t2, Inr v2), (t3, Inl err)] =
         ([(Inr v1, True), (Inr v2, True), (Inl err, True)],
          cb\<lparr>state := Open, counts := clear, openedAt := t3\<rparr>))"
proof -
  have 1: "fst (admit_all cb ts) =
      replicate (min 3 (length ts)) None @ replicate (length ts - 3) (Some BreakerOpenError)"
    if "state cb = HalfOpen \<and> counts cb = clear"
    using admit_all_half_open [of cb 0 ts] that by (simp add: clear_def)
  have 2: "record_result cb now False = cb\<lparr>state := Open, counts := clear, openedAt := now\<rparr>"
    if "state cb = HalfOpen"
    using that by (simp add: record_result_def)
  have 3: "CircuitBreaker_Execute cb now (Inl err :: error + 'a) =
      ((Inl err, True), cb\<lparr>state := Open, counts := clear, openedAt := now\<rparr>)"
    if "state cb = HalfOpen \<and> Requests (counts cb) < MaxRequests"
    using that
    by (simp add: CircuitBreaker_Execute_def admit_def currentState_def record_result_def
        onRequest_def not_le [symmetric])
  have 4: "state (snd (Execute_all cb [(t1, Inr v1 :: error + 'a), (t2, Inr v2)])) = HalfOpen \<and>
       Execute_all cb [(t1, Inr v1), (t2, Inr v2), (t3, Inr v3)] =
         ([(Inr v1, True), (Inr v2, True), (Inr v3, True)],
          cb\<lparr>state := Closed, counts := clear, windowStart := t3\<rparr>) \<and>
       Execute_all cb [(t1, Inr v1), (t2, Inr v2), (t3, Inl err)] =
         ([(Inr v1, True), (Inr v2, True), (Inl err, True)],
          cb\<lparr>state := Open, counts := clear, openedAt := t3\<rparr>)"
    if "state cb = Open \<and> openedAt cb + Timeout \<le> t1"
    using that
    by (simp add: CircuitBreaker_Execute_def admit_def currentState_def record_result_def
        onRequest_def onSuccess_def clear_def MaxRequests_def Let_def three_le_one_word)
  show ?thesis using 1 2 3 4 by blast
qed


text \<open>
  The theorem at five calls that reach a half-open breaker together, at a failed probe,
  and at a breaker whose timeout has just elapsed.
\<close>

theorem half_open_probes_witness:
  "fst (admit_all \<lparr>state = HalfOpen, counts = clear, openedAt = 0, windowStart = 0\<rparr>
      [1, 2, 3, 4, 5]) =
     [None, None, None, Some BreakerOpenError, Some BreakerOpenError] \<and>
   CircuitBreaker_Execute \<lparr>state = HalfOpen, counts = clear, openedAt = 0, windowStart = 0\<rparr>
      7 (Inl (ErrorNew ''giving up'') :: error + string) =
     ((Inl (ErrorNew ''giving up''), True),
      \<lparr>state = Open, counts = clear, openedAt = 7, windowStart = 0\<rparr>) \<and>
   Execute_all \<lparr>state = Open, counts = clear, openedAt = 0, windowStart = 0\<rparr>
      [(Timeout, Inr ''a''), (Timeout + 1, Inr ''b''), (Timeout + 2, Inr ''c'')] =
     ([(Inr ''a'', True), (Inr ''b'', True), (Inr ''c'', True)],
      \<lparr>state = Closed, counts = clear, openedAt = 0, windowStart = Timeout + 2\<rparr>)"
proof -
  let ?h = "\<lparr>state = HalfOpen, counts = clear, openedAt = 0, windowStart = 0\<rparr>"
  let ?o = "\<lparr>state = Open, counts = clear, openedAt = 0, windowStart = 0\<rparr>"
  let ?ts = "[1, 2, 3, 4, 5] :: nat list"
  note h = half_open_probes [where cb = ?h and ts = ?ts and now = 7
      and err = "ErrorNew ''giving up''" and ?'a = string and ?t1.0 = 0]
  note o = half_open_probes [where cb = ?o and ?t1.0 = Timeout and ?t2.0 = "Timeout + 1"
      and ?t3.0 = "Timeout + 2" and ?v1.0 = "''a''" and ?v2.0 = "''b''" and ?v3.0 = "''c''"
      and ts = "[]"]
  have sh: "state ?h = HalfOpen \<and> counts ?h = clear" by simp
  have rh: "state ?h = HalfOpen \<and> Requests (counts ?h) < MaxRequests"
    by (simp add: clear_def MaxRequests_def)
  have so: "state ?o = Open \<and> openedAt ?o + Timeout \<le> Timeout" by simp
  have r: "replicate (min 3 (length ?ts)) None @
      replicate (length ?ts - 3) (Some BreakerOpenError) =
      [None, None, None, Some BreakerOpenError, Some BreakerOpenError]"
    by code_simp
  have 1: "fst (admit_all ?h ?ts) =
      [None, None, None, Some BreakerOpenError, Some BreakerOpenError]"
    using h sh unfolding r by blast
  have 2: "CircuitBreaker_Execute ?h 7 (Inl (ErrorNew ''giving up'') :: error + string) =
      ((Inl (ErrorNew ''giving up''), True), ?h\<lparr>state := Open, counts := clear, openedAt := 7\<rparr>)"
    using h rh by blast
  have 3: "Execute_all ?o
      [(Timeout, Inr ''a''), (Timeout + 1, Inr ''b''), (Timeout + 2, Inr ''c'')] =
     ([(Inr ''a'', True), (Inr ''b'', True), (Inr ''c'', True)],
      ?o\<lparr>state := Closed, counts := clear, windowStart := Timeout + 2\<rparr>)"
    using o so by blast
  from 1 2 3 show ?thesis by simp
qed

section \<open>Retry policy\<close>

lemma Do_retries:
  assumes "\<forall>j. i \<le> j \<and> j < i + n \<longrightarrow> ctx_Err j = None \<and> fst (policy (attempt j))"
  shows "Do policy ctx_Err attempt n i = (attempt (i + n), Suc (i + n))"
  using assms
proof (induction n arbitrary: i)
  case 0
  then show ?case by simp
next
  case (Suc n)
  have "ctx_Err i = None" "fst (policy (attempt i))"
    using Suc.prems [rule_format, of i] by simp_all
  then have c: "CheckRetry policy (ctx_Err i) (attempt i) = (True, snd (policy (attempt i)))"
    by (simp add: CheckRetry_def prod_eq_iff)
  have "Do policy ctx_Err attempt n (Suc i) = (attempt (Suc i + n), Suc (Suc i + n))"
    using Suc.prems by (intro Suc.IH) auto
  then show ?case by (simp add: c)
qed

lemma Do_cancelled:
  assumes "\<forall>j. i \<le> j \<and> j < i + k \<longrightarrow> ctx_Err j = None \<and> fst (policy (attempt j))"
    and "k < n" and "ctx_Err (i + k) = Some err"
  shows "Do policy ctx_Err attempt n i = (Inl err, Suc (i + k))"
  using assms
proof (induction k arbitrary: i n)
  case 0
  then obtain m where "n = Suc m" by (cases n) auto
  then show ?case using 0 by (simp add: CheckRetry_def)
next
  case (Suc k)
  then obtain m where n: "n = Suc m" by (cases n) auto
  have "ctx_Err i = None" "fst (policy (attempt i))"
    using Suc.prems(1) [rule_format, of i] by simp_all
  then have c: "CheckRetry policy (ctx_Err i) (attempt i) = (True, snd (policy (attempt i)))"
    by (simp add: CheckRetry_def prod_eq_iff)
  have "Do policy ctx_Err attempt m (Suc i) = (Inl err, Suc (Suc i + k))"
    using Suc.prems n by (intro Suc.IH) auto
  then show ?case by (simp add: n c)
qed

text \<open>
  Claim C3. With \<open>maxRetries = 2\<close>, an attempt function that fails twice with errors the
  policy retries and then succeeds yields the success after exactly 3 attempts. For any
  \<open>maxRetries\<close>, one that fails on every attempt with such errors yields the failure of
  the last attempt after exactly \<open>maxRetries + 1\<close> attempts. With the configured
  \<open>RetryMax = 0\<close> the call is attempted exactly once and its outcome is returned: retry is
  disabled.
\<close>

theorem retry_attempts:
  fixes attempt :: "nat \<Rightarrow> error + 'a"
  shows
   "(attempt 0 = Inl e0 \<and> attempt 1 = Inl e1 \<and> attempt 2 = Inr v \<and>
     ctx_Err 0 = None \<and> ctx_Err 1 = None \<and> fst (policy (Inl e0)) \<and> fst (policy (Inl e1)) \<longrightarrow>
       Do policy ctx_Err attempt 2 0 = (Inr v, 3)) \<and>
    ((\<forall>i \<le> maxRetries. isl (attempt i)) \<and>
     (\<forall>i < maxRetries. ctx_Err i = None \<and> fst (policy (attempt i))) \<longrightarrow>
       Do policy ctx_Err attempt maxRetries 0 = (attempt maxRetries, maxRetries + 1) \<and>
       isl (attempt maxRetries)) \<and>
    httpClient_Do policy ctx_Err attempt = (attempt 0, 1) \<and> RetryMax = 0"
proof -
  have 1: "Do policy ctx_Err attempt 2 0 = (Inr v, 3)"
    if "attempt 0 = Inl e0 \<and> attempt 1 = Inl e1 \<and> attempt 2 = Inr v \<and>
     ctx_Err 0 = None \<and> ctx_Err 1 = None \<and> fst (policy (Inl e0)) \<and> fst (policy (Inl e1))"
  proof -
    have "\<forall>j. 0 \<le> j \<and> j < 0 + 2 \<longrightarrow> ctx_Err j = None \<and> fst (policy (attempt j))"
    proof (intro allI impI)
      fix j :: nat assume "0 \<le> j \<and> j < 0 + 2"
      then consider "j = 0" | "j = 1" by linarith
      then show "ctx_Err j = None \<and> fst (policy (attempt j))"
        using that by cases simp_all
    qed
    from Do_retries [OF this] have "Do policy ctx_Err attempt 2 0 = (attempt 2, 3)"
      by (simp add: numeral_2_eq_2 numeral_3_eq_3)
    then show ?thesis using that by simp
  qed
  have 2: "Do policy ctx_Err attempt maxRetries 0 = (attempt maxRetries, maxRetries + 1) \<and>
       isl (attempt maxRetries)"
    if "(\<forall>i \<le> maxRetries. isl (attempt i)) \<and>
     (\<forall>i < maxRetries. ctx_Err i = None \<and> fst (policy (attempt i)))"
    using Do_retries [of 0 maxRetries ctx_Err policy attempt] that by simp
  have 3: "httpClient_Do policy ctx_Err attempt = (attempt 0, 1)"
    by (simp add: httpClient_Do_def RetryMax_def)
  show ?thesis using 1 2 3 by (simp add: RetryMax_def)
qed

text \<open>
  The theorem at an attempt function that fails twice and then succeeds, and at one that
  always fails, under a policy that retries every error.
\<close>

theorem retry_attempts_witness:
  "Do (\<lambda>outcome. (isl outcome, None)) (\<lambda>i. None)
      (\<lambda>i. if i < 2 then Inl (ErrorNew ''connection refused'') else Inr ''ok'') 2 0 =
     (Inr ''ok'', 3) \<and>
   Do (\<lambda>outcome. (isl outcome, None)) (\<lambda>i. None)
      (\<lambda>i. Inl (ErrorNew ''connection refused'') :: error + string) 2 0 =
     (Inl (ErrorNew ''connection refused''), 3)"
  using retry_attempts [where attempt = "\<lambda>i. if i < 2 then Inl (ErrorNew ''connection refused'')
        else Inr ''ok''" and policy = "\<lambda>outcome. (isl outcome, None)" and ctx_Err = "\<lambda>i. None"
        and ?e0.0 = "ErrorNew ''connection refused''" and ?e1.0 = "ErrorNew ''connection refused''"
        and v = "''ok''" and maxRetries = 0]
    retry_attempts [where attempt = "\<lambda>i. Inl (ErrorNew ''connection refused'') :: error + string"
        and policy = "\<lambda>outcome. (isl outcome, None)" and ctx_Err = "\<lambda>i. None"
        and maxRetries = 2]
  by simp

text \<open>
  Claim C4. When the policy is asked before a retry and the caller's context has
  expired, \<^verbatim>\<open>CheckRetry\<close> answers "do not retry" with \<^verbatim>\<open>ctx.Err()\<close>; no further
  attempt is made, and the call ends with that cancellation error after the attempts made
  so far, fewer than \<open>maxRetries + 1\<close>.
\<close>

theorem retry_cancelled:
  fixes attempt :: "nat \<Rightarrow> error + 'a"
  shows
   "CheckRetry policy (Some err) outcome = (False, Some err) \<and>
    ((\<forall>j < k. ctx_Err j = None \<and> fst (policy (attempt j))) \<and>
     k < maxRetries \<and> ctx_Err k = Some err \<longrightarrow>
       Do policy ctx_Err attempt maxRetries 0 = (Inl err, Suc k) \<and> Suc k < maxRetries + 1)"
  using Do_cancelled [of 0 k ctx_Err policy attempt maxRetries err]
  by (simp add: CheckRetry_def)

text \<open>The theorem at a deadline that expires after the second of three allowed attempts.\<close>

theorem retry_cancelled_witness:
  "Do (\<lambda>outcome. (isl outcome, None)) (\<lambda>i. if i = 1 then Some DeadlineExceeded else None)
      (\<lambda>i. Inl (ErrorNew ''connection refused'') :: error + string) 2 0 =
     (Inl DeadlineExceeded, 2)"
  using retry_cancelled [where attempt = "\<lambda>i. Inl (ErrorNew ''connection refused'') :: error + string"
      and policy = "\<lambda>outcome. (isl outcome, None)"
      and ctx_Err = "\<lambda>i. if i = 1 then Some DeadlineExceeded else None"
      and k = 1 and maxRetries = 2 and err = DeadlineExceeded]
  by simp

end
